theory Spec2Isabelle
  imports Complex_Main
begin

section \<open>JavaScript values\<close>

text \<open>
  The data pipeline of \<^verbatim>\<open>js/stripPlots.js\<close> (\<^verbatim>\<open>cleanData\<close>, \<^verbatim>\<open>getPointsData\<close> and the sorting
  step of \<^verbatim>\<open>makeStripPlot\<close>) works on spreadsheet rows: plain objects whose cells are
  strings or numbers. A number is a double; the model keeps the three non-finite values
  apart and takes a finite double for the real number it denotes (rounding is not
  modelled, and \<^verbatim>\<open>+0\<close> and \<^verbatim>\<open>-0\<close> are one value).
\<close>

datatype jsnum = NaN | NegInf | Fin real | PosInf

datatype jsval = Undefined | Str string | Num jsnum

datatype error = TypeError

text \<open>
  A row object is the list of its own properties in the order \<^verbatim>\<open>Object.entries\<close> lists them.
  Reading a missing property gives \<^verbatim>\<open>undefined\<close>; assigning keeps the place of a property
  that exists and appends a new one (the names written by the program are never
  integer-like, so a new property goes last); \<^verbatim>\<open>delete\<close> removes the property.
\<close>

type_synonym row = "(string \<times> jsval) list"

fun row_get :: "row \<Rightarrow> string \<Rightarrow> jsval" where
  "row_get [] k = Undefined"
| "row_get ((c, v) # r) k = (if c = k then v else row_get r k)"

fun row_put :: "string \<Rightarrow> jsval \<Rightarrow> row \<Rightarrow> row" where
  "row_put k v [] = [(k, v)]"
| "row_put k v ((c, w) # r) = (if c = k then (c, v) # r else (c, w) # row_put k v r)"

definition row_delete :: "string \<Rightarrow> row \<Rightarrow> row" where
  "row_delete k r = filter (\<lambda>e. fst e \<noteq> k) r"

text \<open>
  Conversions and library functions that are not part of the repository are parameters of
  the model: \<^verbatim>\<open>ToNumber\<close> on strings, \<^verbatim>\<open>ToString\<close> on numbers, and the two functions of the
  d3 library the pipeline calls.
\<close>

record host =
  string_to_number :: "string \<Rightarrow> jsnum"
  number_to_string :: "jsnum \<Rightarrow> string"
  d3_median :: "jsval list \<Rightarrow> jsval"
  d3_interpolateRgb :: "string \<Rightarrow> string \<Rightarrow> jsnum \<Rightarrow> string"

fun to_number :: "host \<Rightarrow> jsval \<Rightarrow> jsnum" where
  "to_number h Undefined = NaN"
| "to_number h (Str s) = string_to_number h s"
| "to_number h (Num n) = n"

fun to_string :: "host \<Rightarrow> jsval \<Rightarrow> string" where
  "to_string h Undefined = ''undefined''"
| "to_string h (Str s) = s"
| "to_string h (Num n) = number_to_string h n"

text \<open>\<^verbatim>\<open>a !== b\<close> on primitive values: \<^verbatim>\<open>NaN\<close> differs from everything, itself included.\<close>

fun strict_neq :: "jsval \<Rightarrow> jsval \<Rightarrow> bool" where
  "strict_neq (Num NaN) b = True"
| "strict_neq a b = (a \<noteq> b)"

subsection \<open>Numbers\<close>

text \<open>\<^verbatim>\<open>Math.log\<close>: \<^verbatim>\<open>-Infinity\<close> at zero, \<^verbatim>\<open>NaN\<close> below zero.\<close>

fun math_log :: "jsnum \<Rightarrow> jsnum" where
  "math_log NaN = NaN"
| "math_log NegInf = NaN"
| "math_log PosInf = PosInf"
| "math_log (Fin x) = (if x < 0 then NaN else if x = 0 then NegInf else Fin (ln x))"

text \<open>Subtraction and division of numbers, with the non-finite cases of IEEE arithmetic.\<close>

fun num_sub :: "jsnum \<Rightarrow> jsnum \<Rightarrow> jsnum" where
  "num_sub NaN b = NaN"
| "num_sub a NaN = NaN"
| "num_sub PosInf PosInf = NaN"
| "num_sub NegInf NegInf = NaN"
| "num_sub PosInf b = PosInf"
| "num_sub NegInf b = NegInf"
| "num_sub (Fin x) PosInf = NegInf"
| "num_sub (Fin x) NegInf = PosInf"
| "num_sub (Fin x) (Fin y) = Fin (x - y)"

fun num_div :: "jsnum \<Rightarrow> jsnum \<Rightarrow> jsnum" where
  "num_div (Fin x) (Fin y) =
     (if y = 0 then (if x = 0 then NaN else if 0 < x then PosInf else NegInf)
      else Fin (x / y))"
| "num_div (Fin x) PosInf = Fin 0"
| "num_div (Fin x) NegInf = Fin 0"
| "num_div PosInf (Fin y) = (if y < 0 then NegInf else PosInf)"
| "num_div NegInf (Fin y) = (if y < 0 then PosInf else NegInf)"
| "num_div a b = NaN"

text \<open>\<^verbatim>\<open>n > 0\<close>; false for \<^verbatim>\<open>NaN\<close>.\<close>

fun positive :: "jsnum \<Rightarrow> bool" where
  "positive (Fin x) = (0 < x)"
| "positive PosInf = True"
| "positive n = False"

text \<open>\<^verbatim>\<open>n < 0\<close>; false for \<^verbatim>\<open>NaN\<close>.\<close>

fun negative :: "jsnum \<Rightarrow> bool" where
  "negative (Fin x) = (x < 0)"
| "negative NegInf = True"
| "negative n = False"

subsection \<open>Strings and arrays\<close>

text \<open>\<^verbatim>\<open>s.startsWith(p)\<close>, \<^verbatim>\<open>s.endsWith(p)\<close> and \<^verbatim>\<open>s.includes(p)\<close>.\<close>

definition startsWith :: "string \<Rightarrow> string \<Rightarrow> bool" where
  "startsWith s p = (take (length p) s = p)"

definition endsWith :: "string \<Rightarrow> string \<Rightarrow> bool" where
  "endsWith s p = (length p \<le> length s \<and> drop (length s - length p) s = p)"

fun str_includes :: "string \<Rightarrow> string \<Rightarrow> bool" where
  "str_includes [] p = (p = [])"
| "str_includes (c # cs) p = (startsWith (c # cs) p \<or> str_includes cs p)"

text \<open>
  \<^verbatim>\<open>s.split(sep)\<close>: the pieces of \<open>s\<close> between the occurrences of \<open>sep\<close>, found from
  the left and not overlapping; \<open>piece\<close> is the piece being read. An empty separator
  splits between all characters.
\<close>

fun split_from :: "string \<Rightarrow> string \<Rightarrow> string \<Rightarrow> string list" where
  "split_from sep piece [] = [piece]"
| "split_from sep piece (c # cs) =
     (if sep \<noteq> [] \<and> startsWith (c # cs) sep
      then piece # split_from sep [] (drop (length sep - 1) cs)
      else split_from sep (piece @ [c]) cs)"

definition split :: "string \<Rightarrow> string \<Rightarrow> string list" where
  "split s sep = (if sep = [] then map (\<lambda>c. [c]) s else split_from sep [] s)"

text \<open>\<^verbatim>\<open>xs.slice(a)\<close> and \<^verbatim>\<open>xs.slice(a, -b)\<close> for \<open>a, b \<ge> 0\<close>, on strings and arrays.\<close>

definition slice_from :: "nat \<Rightarrow> 'a list \<Rightarrow> 'a list" where
  "slice_from a xs = drop a xs"

definition slice_to :: "nat \<Rightarrow> nat \<Rightarrow> 'a list \<Rightarrow> 'a list" where
  "slice_to a e xs = drop a (take e xs)"

definition slice_back :: "nat \<Rightarrow> nat \<Rightarrow> 'a list \<Rightarrow> 'a list" where
  "slice_back a b xs = slice_to a (length xs - b) xs"

text \<open>\<^verbatim>\<open>xs[i]\<close> on an array of strings: \<^verbatim>\<open>undefined\<close> out of range.\<close>

definition at_index :: "string list \<Rightarrow> nat \<Rightarrow> jsval" where
  "at_index xs i = (if i < length xs then Str (xs ! i) else Undefined)"

section \<open>The colour palette\<close>

text \<open>
  \<^verbatim>\<open>generateColors(color0, color1, n)\<close> pushes \<^verbatim>\<open>interpolate(i / (n - 1))\<close> for
  \<open>i = 0, \<dots>, n - 1\<close>.
\<close>

definition generateColors :: "host \<Rightarrow> string \<Rightarrow> string \<Rightarrow> nat \<Rightarrow> string list" where
  "generateColors h color0 color1 n =
     map (\<lambda>i. d3_interpolateRgb h color0 color1
                (num_div (Fin (real i)) (num_sub (Fin (real n)) (Fin 1))))
         [0..<n]"

definition colors :: "host \<Rightarrow> string list" where
  "colors h =
     (generateColors h ''#CC00CC'' ''#009090'' 4
      @ slice_from 1 (generateColors h ''#009090'' ''#FF6600'' 4))
     @ slice_back 1 1 (generateColors h ''#FF9933'' ''#CC00CC'' 2)"

section \<open>The point builder\<close>

record point =
  chemical :: jsval
  logRF :: jsval
  featureId :: jsval
  sampleName :: string
  mode :: jsval
  retentionTime :: jsval
  color :: jsval

text \<open>
  The loop state of \<^verbatim>\<open>getPointsData\<close>: \<^verbatim>\<open>chemName\<close>, the counter \<^verbatim>\<open>i\<close> and \<^verbatim>\<open>pointsData\<close>.
\<close>

type_synonym pstate = "jsval \<times> nat \<times> point list"

text \<open>
  The sample name of a column: \<^verbatim>\<open>key.split("log RF ")[1]\<close>, less one closing underscore.
  A key with no second piece would make \<^verbatim>\<open>endsWith\<close> fail on \<^verbatim>\<open>undefined\<close>.
\<close>

definition sample_name :: "string \<Rightarrow> error + string" where
  "sample_name key =
     (case split key ''log RF '' of
        p # name # ps \<Rightarrow>
          Inr (if endsWith name ''_'' then slice_to 0 (length name - 1) name else name)
      | _ \<Rightarrow> Inl TypeError)"

text \<open>The body of the inner \<^verbatim>\<open>forEach\<close>, for the entry \<open>(key, value)\<close> of the row \<open>d\<close>.\<close>

fun point_entry :: "string list \<Rightarrow> row \<Rightarrow> string \<times> jsval \<Rightarrow> pstate \<Rightarrow> error + pstate" where
  "point_entry cols d (key, v) (chemName, i, pointsData) =
     (if startsWith key ''log RF '' then
        (case sample_name key of
           Inl e \<Rightarrow> Inl e
         | Inr name \<Rightarrow>
             (let changed = strict_neq (row_get d ''Chemical Name'') chemName;
                  chemName' = (if changed then row_get d ''Chemical Name'' else chemName);
                  i' = (if changed then i + 1 else i);
                  datum = \<lparr> chemical = row_get d ''Chemical Name'',
                            logRF = v,
                            featureId = row_get d ''Feature ID'',
                            sampleName = name,
                            mode = row_get d ''Ionization Mode'',
                            retentionTime = row_get d ''Retention Time'',
                            color = at_index cols (i' mod 7) \<rparr>
              in Inr (chemName', i', pointsData @ [datum])))
      else Inr (chemName, i, pointsData))"

fun point_entries :: "string list \<Rightarrow> row \<Rightarrow> (string \<times> jsval) list \<Rightarrow> pstate \<Rightarrow> error + pstate" where
  "point_entries cols d [] st = Inr st"
| "point_entries cols d (e # es) st =
     (case point_entry cols d e st of
        Inl err \<Rightarrow> Inl err
      | Inr st' \<Rightarrow> point_entries cols d es st')"

text \<open>
  \<^verbatim>\<open>d["Chemical Name"].includes(s)\<close>: only a string has the method.
\<close>

fun name_includes :: "jsval \<Rightarrow> string \<Rightarrow> error + bool" where
  "name_includes (Str n) s = Inr (str_includes n s)"
| "name_includes v s = Inl TypeError"

text \<open>Whether the filter on \<^verbatim>\<open>showMode\<close> skips the row \<open>d\<close>.\<close>

definition skipped :: "string \<Rightarrow> row \<Rightarrow> error + bool" where
  "skipped showMode d =
     (if showMode = ''+'' then name_includes (row_get d ''Chemical Name'') ''(ESI-)''
      else if showMode = ''-'' then name_includes (row_get d ''Chemical Name'') ''(ESI+)''
      else Inr False)"

text \<open>The body of the outer \<^verbatim>\<open>forEach\<close>.\<close>

definition point_row :: "string list \<Rightarrow> string \<Rightarrow> row \<Rightarrow> pstate \<Rightarrow> error + pstate" where
  "point_row cols showMode d st =
     (case skipped showMode d of
        Inl e \<Rightarrow> Inl e
      | Inr True \<Rightarrow> Inr st
      | Inr False \<Rightarrow> point_entries cols d d st)"

fun point_rows :: "string list \<Rightarrow> string \<Rightarrow> row list \<Rightarrow> pstate \<Rightarrow> error + pstate" where
  "point_rows cols showMode [] st = Inr st"
| "point_rows cols showMode (d # ds) st =
     (case point_row cols showMode d st of
        Inl e \<Rightarrow> Inl e
      | Inr st' \<Rightarrow> point_rows cols showMode ds st')"

text \<open>
  \<^verbatim>\<open>getPointsData(data, nChemsPerPlot, showMode)\<close>; the second parameter is never read and
  is left out. \<^verbatim>\<open>data[0]["Chemical Name"]\<close> is read before the loop: on an empty array
  \<^verbatim>\<open>data[0]\<close> is \<^verbatim>\<open>undefined\<close> and the read raises a \<^verbatim>\<open>TypeError\<close>.
\<close>

definition getPointsData :: "host \<Rightarrow> row list \<Rightarrow> string \<Rightarrow> error + point list" where
  "getPointsData h data showMode =
     (case data of
        [] \<Rightarrow> Inl TypeError
      | d0 # ds \<Rightarrow>
          (case point_rows (colors h) showMode data (row_get d0 ''Chemical Name'', 0, []) of
             Inl e \<Rightarrow> Inl e
           | Inr (chemName, i, pointsData) \<Rightarrow> Inr pointsData))"

section \<open>Sorting before the points are built\<close>

text \<open>
  \<^verbatim>\<open>makeStripPlot\<close> sorts the array in place with a comparator \<^verbatim>\<open>a[key] - b[key]\<close> and then
  builds the points. \<^verbatim>\<open>Array.prototype.sort\<close> reads a \<^verbatim>\<open>NaN\<close> from the comparator as \<open>0\<close>, a
  negative value as "first argument first" and a positive value as "first argument
  last".
\<close>

definition compare_rows :: "host \<Rightarrow> string \<Rightarrow> row \<Rightarrow> row \<Rightarrow> jsnum" where
  "compare_rows h key a b = num_sub (to_number h (row_get a key)) (to_number h (row_get b key))"

text \<open>
  ECMAScript fixes the result of \<^verbatim>\<open>sort\<close> only for a comparator that is consistent on
  the elements of the array: every element equals itself, equality is symmetric and
  transitive, and "before" and "after" are transitive. \<^verbatim>\<open>a[key] - b[key]\<close> is not
  consistent when, for instance, one key is \<^verbatim>\<open>NaN\<close> (it compares as equal to two keys
  that differ).
\<close>

definition consistent3 :: "('a \<Rightarrow> 'a \<Rightarrow> jsnum) \<Rightarrow> 'a \<Rightarrow> 'a \<Rightarrow> 'a \<Rightarrow> bool" where
  "consistent3 cmp a b c =
     (let lt = (\<lambda>x y. negative (cmp x y));
          gt = (\<lambda>x y. positive (cmp x y));
          eq = (\<lambda>x y. \<not> negative (cmp x y) \<and> \<not> positive (cmp x y))
      in eq a a
         \<and> (eq a b \<longrightarrow> eq b a)
         \<and> (eq a b \<and> eq b c \<longrightarrow> eq a c)
         \<and> (lt a b \<and> lt b c \<longrightarrow> lt a c)
         \<and> (gt a b \<and> gt b c \<longrightarrow> gt a c))"

definition consistent :: "('a \<Rightarrow> 'a \<Rightarrow> jsnum) \<Rightarrow> 'a list \<Rightarrow> bool" where
  "consistent cmp xs = (\<forall>a \<in> set xs. \<forall>b \<in> set xs. \<forall>c \<in> set xs. consistent3 cmp a b c)"

text \<open>
  For a consistent comparator the sort is stable, so its result is the one sorted
  arrangement that keeps equal elements in their order: the model inserts the elements
  from the right into the sorted rest, each in front of the first element it is not to
  follow. For a comparator that is not consistent the order is left to the engine, and
  the model gives no array (\<open>None\<close>).
\<close>

fun insert_sorted :: "('a \<Rightarrow> 'a \<Rightarrow> jsnum) \<Rightarrow> 'a \<Rightarrow> 'a list \<Rightarrow> 'a list" where
  "insert_sorted cmp x [] = [x]"
| "insert_sorted cmp x (y # ys) =
     (if positive (cmp x y) then y # insert_sorted cmp x ys else x # y # ys)"

definition array_sort :: "('a \<Rightarrow> 'a \<Rightarrow> jsnum) \<Rightarrow> 'a list \<Rightarrow> 'a list option" where
  "array_sort cmp xs = (if consistent cmp xs then Some (foldr (insert_sorted cmp) xs []) else None)"

text \<open>
  The data part of \<^verbatim>\<open>makeStripPlot(data, sortedBy, showMode)\<close>: the array as the sort leaves
  it, and the points built from it; \<open>None\<close> when the order of the array is left to the
  engine. Drawing the chart is not modelled.
\<close>

definition makeStripPlot ::
  "host \<Rightarrow> row list \<Rightarrow> string \<Rightarrow> string \<Rightarrow> (row list \<times> (error + point list)) option" where
  "makeStripPlot h data sortedBy showMode =
     (case (if sortedBy = ''rt''
            then array_sort (compare_rows h ''Retention Time'') data
            else array_sort (compare_rows h ''Median Log RF'') data) of
        None \<Rightarrow> None
      | Some arr \<Rightarrow> Some (arr, getPointsData h arr showMode))"

section \<open>The cleaner\<close>

definition columnsToKeep :: "string list" where
  "columnsToKeep = [''Feature ID'', ''Chemical Name'', ''Ionization Mode'', ''Retention Time'']"

text \<open>
  \<^verbatim>\<open>logRFValues\<close> is a plain object used as a dictionary from names to arrays. Its own
  properties are the map; a name it does not own is looked up in \<^verbatim>\<open>Object.prototype\<close>,
  whose properties are functions (and \<^verbatim>\<open>__proto__\<close>, the prototype itself): truthy
  values without a \<^verbatim>\<open>push\<close> method.
\<close>

type_synonym logtable = "string \<Rightarrow> jsval list option"

definition objectPrototype :: "string list" where
  "objectPrototype =
     [''constructor'', ''__defineGetter__'', ''__defineSetter__'', ''hasOwnProperty'',
      ''__lookupGetter__'', ''__lookupSetter__'', ''isPrototypeOf'', ''propertyIsEnumerable'',
      ''toString'', ''valueOf'', ''__proto__'', ''toLocaleString'']"

text \<open>
  The body of the inner \<^verbatim>\<open>forEach\<close> of the first pass, for the entry \<open>(colName, value)\<close>
  of the snapshot \<^verbatim>\<open>Object.entries(row)\<close>; \<open>row\<close> is the object as mutated so far. An
  error carries the state in which it was raised: the rows are the caller's objects.
\<close>

fun clean_entry :: "host \<Rightarrow> string \<times> jsval \<Rightarrow> row \<times> logtable \<Rightarrow> (error \<times> row \<times> logtable) + (row \<times> logtable)" where
  "clean_entry h (colName, v) (row, logRFValues) =
     (if \<not> startsWith colName ''RF '' \<and> colName \<notin> set columnsToKeep
      then Inr (row_delete colName row, logRFValues)
      else
        (let row1 = (if colName = ''Chemical Name''
                     then row_put colName
                            (Str (to_string h (row_get row colName) @ '' (''
                                  @ to_string h (row_get row ''Ionization Mode'') @ '')''))
                            row
                     else row)
         in if startsWith colName ''RF '' then
              (let logColName = ''log '' @ colName;
                   row2 = row_put logColName (Num (math_log (to_number h v))) row1;
                   row3 = row_delete colName row2;
                   name = to_string h (row_get row3 ''Chemical Name'')
               in (case logRFValues name of
                     Some logs \<Rightarrow>
                       Inr (row3, logRFValues(name \<mapsto> logs @ [row_get row3 logColName]))
                   | None \<Rightarrow>
                       if name \<in> set objectPrototype
                       then Inl (TypeError, row3, logRFValues)
                       else Inr (row3, logRFValues(name \<mapsto> [row_get row3 logColName]))))
            else Inr (row1, logRFValues)))"

fun clean_entries :: "host \<Rightarrow> (string \<times> jsval) list \<Rightarrow> row \<times> logtable \<Rightarrow> (error \<times> row \<times> logtable) + (row \<times> logtable)" where
  "clean_entries h [] st = Inr st"
| "clean_entries h (e # es) st =
     (case clean_entry h e st of
        Inl err \<Rightarrow> Inl err
      | Inr st' \<Rightarrow> clean_entries h es st')"

text \<open>
  The first pass over the rows. The rows of \<open>data\<close> are taken to be distinct objects, as
  the sheet reader returns them, so a row is changed only while it is visited.
\<close>

fun clean_rows :: "host \<Rightarrow> row list \<Rightarrow> logtable \<Rightarrow> (error \<times> row list) + (row list \<times> logtable)" where
  "clean_rows h [] logRFValues = Inr ([], logRFValues)"
| "clean_rows h (row # rows) logRFValues =
     (case clean_entries h row (row, logRFValues) of
        Inl (e, row', l) \<Rightarrow> Inl (e, row' # rows)
      | Inr (row', l) \<Rightarrow>
          (case clean_rows h rows l of
             Inl (e, rows') \<Rightarrow> Inl (e, row' # rows')
           | Inr (rows', l') \<Rightarrow> Inr (row' # rows', l')))"

text \<open>
  The second pass. \<^verbatim>\<open>d3.median\<close> iterates its argument: called on \<^verbatim>\<open>undefined\<close> (no list
  under the row's name) or on an inherited property it raises a \<^verbatim>\<open>TypeError\<close>.
\<close>

fun add_medians :: "host \<Rightarrow> logtable \<Rightarrow> row list \<Rightarrow> (error \<times> row list) + row list" where
  "add_medians h logRFValues [] = Inr []"
| "add_medians h logRFValues (row # rows) =
     (case logRFValues (to_string h (row_get row ''Chemical Name'')) of
        None \<Rightarrow> Inl (TypeError, row # rows)
      | Some logRFs \<Rightarrow>
          (case add_medians h logRFValues rows of
             Inl (e, rows') \<Rightarrow> Inl (e, row_put ''Median Log RF'' (d3_median h logRFs) row # rows')
           | Inr rows' \<Rightarrow> Inr (row_put ''Median Log RF'' (d3_median h logRFs) row # rows')))"

text \<open>
  \<^verbatim>\<open>cleanData(data)\<close>: \<open>Inr\<close> the array it returns (the caller's array, rewritten in
  place), \<open>Inl\<close> the error it raises with the rows as they are at that moment.
\<close>

definition cleanData :: "host \<Rightarrow> row list \<Rightarrow> (error \<times> row list) + row list" where
  "cleanData h data =
     (case clean_rows h data Map.empty of
        Inl err \<Rightarrow> Inl err
      | Inr (rows, logRFValues) \<Rightarrow> add_medians h logRFValues rows)"

section \<open>Notions used in the properties\<close>

text \<open>The part of a string before the first occurrence of a separator.\<close>

fun upto :: "string \<Rightarrow> string \<Rightarrow> string" where
  "upto sep [] = []"
| "upto sep (c # cs) = (if startsWith (c # cs) sep then [] else c # upto sep cs)"

text \<open>A string less one closing underscore, if it has one.\<close>

definition strip_underscore :: "string \<Rightarrow> string" where
  "strip_underscore s = (if s \<noteq> [] \<and> last s = CHR ''_'' then butlast s else s)"

text \<open>
  The sample name of the column \<open>key\<close>, said without \<^verbatim>\<open>split\<close>: what follows the prefix
  \<^verbatim>\<open>log RF \<close>, up to a further \<^verbatim>\<open>log RF \<close>, less one closing underscore.
\<close>

definition sample_of :: "string \<Rightarrow> string" where
  "sample_of key = strip_underscore (upto ''log RF '' (drop (length ''log RF '') key))"

text \<open>The entries of a row that the point builder turns into points.\<close>

definition is_log :: "string \<times> jsval \<Rightarrow> bool" where
  "is_log e = startsWith (fst e) ''log RF ''"

text \<open>The rows the filter lets through, and their log RF cells in the order in which they are visited.\<close>

definition kept_rows :: "string \<Rightarrow> row list \<Rightarrow> row list" where
  "kept_rows showMode data = filter (\<lambda>d. skipped showMode d = Inr False) data"

definition cells :: "row list \<Rightarrow> (row \<times> string \<times> jsval) list" where
  "cells rows = concat (map (\<lambda>d. map (Pair d) (filter is_log d)) rows)"

text \<open>
  The step of \<^verbatim>\<open>chemName\<close> and \<^verbatim>\<open>i\<close> at a point whose row has the name \<open>name\<close>.
\<close>

definition advance :: "jsval \<times> nat \<Rightarrow> jsval \<Rightarrow> jsval \<times> nat" where
  "advance s name = (if strict_neq name (fst s) then (name, snd s + 1) else s)"

text \<open>The point for the cell \<open>e\<close> of the row \<open>d\<close>, with the colour \<open>c\<close>.\<close>

definition cell_point :: "row \<Rightarrow> string \<times> jsval \<Rightarrow> jsval \<Rightarrow> point" where
  "cell_point d e c =
     \<lparr> chemical = row_get d ''Chemical Name'', logRF = snd e,
       featureId = row_get d ''Feature ID'', sampleName = sample_of (fst e),
       mode = row_get d ''Ionization Mode'', retentionTime = row_get d ''Retention Time'',
       color = c \<rparr>"

text \<open>
  The points of a list of cells, from the state \<open>s\<close> of \<^verbatim>\<open>chemName\<close> and \<^verbatim>\<open>i\<close>, and the
  state after them.
\<close>

fun build :: "string list \<Rightarrow> jsval \<times> nat \<Rightarrow> (row \<times> string \<times> jsval) list \<Rightarrow> point list" where
  "build cols s [] = []"
| "build cols s ((d, e) # ps) =
     cell_point d e (at_index cols (snd (advance s (row_get d ''Chemical Name'')) mod 7))
       # build cols (advance s (row_get d ''Chemical Name'')) ps"

definition run :: "jsval \<times> nat \<Rightarrow> (row \<times> string \<times> jsval) list \<Rightarrow> jsval \<times> nat" where
  "run s ps = foldl advance s (map (\<lambda>p. row_get (fst p) ''Chemical Name'') ps)"

text \<open>
  The counter along a list of names: it goes up by one at each name that differs from
  the name before it; \<open>prev\<close> is the name before the first and \<open>n\<close> the counter there.
\<close>

fun ordinals :: "jsval \<Rightarrow> nat \<Rightarrow> jsval list \<Rightarrow> nat list" where
  "ordinals prev n [] = []"
| "ordinals prev n (k # ks) =
     (if strict_neq k prev then Suc n # ordinals k (Suc n) ks else n # ordinals k n ks)"

text \<open>The sort key of a row when it is a finite number.\<close>

definition finite_key :: "host \<Rightarrow> string \<Rightarrow> row \<Rightarrow> real" where
  "finite_key h key r = (case to_number h (row_get r key) of Fin x \<Rightarrow> x | _ \<Rightarrow> 0)"

text \<open>The column \<^verbatim>\<open>makeStripPlot\<close> sorts by.\<close>

definition sort_column :: "string \<Rightarrow> string" where
  "sort_column sortedBy = (if sortedBy = ''rt'' then ''Retention Time'' else ''Median Log RF'')"

text \<open>A list in which no element is to follow its successor.\<close>

fun in_order :: "('a \<Rightarrow> 'a \<Rightarrow> jsnum) \<Rightarrow> 'a list \<Rightarrow> bool" where
  "in_order cmp [] = True"
| "in_order cmp [x] = True"
| "in_order cmp (x # y # ys) = (\<not> positive (cmp x y) \<and> in_order cmp (y # ys))"

text \<open>The column names of a row.\<close>

definition keys :: "row \<Rightarrow> string set" where
  "keys r = fst ` set r"

text \<open>The columns the first pass of the cleaner leaves or adds.\<close>

definition retained_column :: "string \<Rightarrow> bool" where
  "retained_column c = (c \<in> set columnsToKeep \<or> startsWith c ''log RF '')"

text \<open>The row after the first pass has visited its RF column \<open>c\<close> with the cell \<open>v\<close>.\<close>

definition rf_row :: "host \<Rightarrow> string \<Rightarrow> jsval \<Rightarrow> row \<Rightarrow> row" where
  "rf_row h c v row = row_delete c (row_put (''log '' @ c) (Num (math_log (to_number h v))) row)"

text \<open>The name of a row as a key of \<^verbatim>\<open>logRFValues\<close>.\<close>

definition chem_key :: "host \<Rightarrow> row \<Rightarrow> string" where
  "chem_key h r = to_string h (row_get r ''Chemical Name'')"

text \<open>No \<^verbatim>\<open>Chemical Name\<close> column after an RF column.\<close>

fun names_first :: "row \<Rightarrow> bool" where
  "names_first [] = True"
| "names_first (e # es) =
     (if startsWith (fst e) ''RF '' then ''Chemical Name'' \<notin> fst ` set es else names_first es)"

text \<open>The logs of the RF cells of a raw row, in column order.\<close>

definition log_values :: "host \<Rightarrow> row \<Rightarrow> jsval list" where
  "log_values h r =
     map (\<lambda>e. Num (math_log (to_number h (snd e)))) (filter (\<lambda>e. startsWith (fst e) ''RF '') r)"

text \<open>\<^verbatim>\<open>logRFValues\<close> after the values \<open>vs\<close> have been pushed under the name \<open>k\<close>.\<close>

definition add_logs :: "logtable \<Rightarrow> string \<Rightarrow> jsval list \<Rightarrow> logtable" where
  "add_logs l k vs =
     (if vs = [] then l else l(k \<mapsto> (case l k of None \<Rightarrow> [] | Some ws \<Rightarrow> ws) @ vs))"

text \<open>
  The logs of the RF cells of all rows of \<open>data\<close> whose cleaned row in \<open>out\<close> has the
  name \<open>k\<close>, in row order.
\<close>

definition values_for :: "host \<Rightarrow> row list \<Rightarrow> row list \<Rightarrow> string \<Rightarrow> jsval list" where
  "values_for h data out k =
     concat (map (\<lambda>p. log_values h (fst p)) (filter (\<lambda>p. chem_key h (snd p) = k) (zip data out)))"

text \<open>The log RF entry the cleaner makes of an RF entry, and the RF entries of a row.\<close>

definition log_cell :: "host \<Rightarrow> string \<times> jsval \<Rightarrow> string \<times> jsval" where
  "log_cell h e = (''log '' @ fst e, Num (math_log (to_number h (snd e))))"

definition rf_cells :: "row \<Rightarrow> (string \<times> jsval) list" where
  "rf_cells r = filter (\<lambda>e. startsWith (fst e) ''RF '') r"

section \<open>A host for the examples\<close>

text \<open>
  The closed examples below run the model on one host. Its conversions cover what the
  examples use: strings of decimal digits read as numbers (any other string as \<^verbatim>\<open>NaN\<close>)
  and whole numbers printed in decimal.
\<close>

fun index_of :: "'a \<Rightarrow> 'a list \<Rightarrow> nat option" where
  "index_of c [] = None"
| "index_of c (x # xs) = (if c = x then Some 0 else map_option Suc (index_of c xs))"

fun digits_value :: "nat \<Rightarrow> string \<Rightarrow> nat \<Rightarrow> nat option" where
  "digits_value base [] acc = Some acc"
| "digits_value base (c # cs) acc =
     (case index_of c (take base ''0123456789abcdef'') of
        Some n \<Rightarrow> digits_value base cs (acc * base + n)
      | None \<Rightarrow>
          (case index_of c (take base ''0123456789ABCDEF'') of
             Some n \<Rightarrow> digits_value base cs (acc * base + n)
           | None \<Rightarrow> None))"

fun show_nat :: "nat \<Rightarrow> string" where
  "show_nat n =
     (if n < 10 then [''0123456789'' ! n] else show_nat (n div 10) @ [''0123456789'' ! (n mod 10)])"

declare show_nat.simps [simp del]

definition example_string_to_number :: "string \<Rightarrow> jsnum" where
  "example_string_to_number s =
     (case digits_value 10 s 0 of Some n \<Rightarrow> Fin (real n) | None \<Rightarrow> NaN)"

fun example_number_to_string :: "jsnum \<Rightarrow> string" where
  "example_number_to_string NaN = ''NaN''"
| "example_number_to_string PosInf = ''Infinity''"
| "example_number_to_string NegInf = ''-Infinity''"
| "example_number_to_string (Fin x) =
     (if x < 0 then ''-'' else []) @ show_nat (nat \<lfloor>\<bar>x\<bar>\<rfloor>)"

text \<open>
  \<^verbatim>\<open>d3.interpolateRgb\<close> on two colours written \<^verbatim>\<open>#rrggbb\<close>: each channel moves linearly
  from the first colour to the second, is rounded to the nearest integer and clamped to
  \<open>0..255\<close>, and the result is printed as \<^verbatim>\<open>rgb(r, g, b)\<close>.
\<close>

definition rgb_of_hex :: "string \<Rightarrow> nat \<times> nat \<times> nat" where
  "rgb_of_hex s =
     (if length s = 7 \<and> hd s = CHR ''#'' then
        (case (digits_value 16 (take 2 (drop 1 s)) 0, digits_value 16 (take 2 (drop 3 s)) 0,
               digits_value 16 (take 2 (drop 5 s)) 0) of
           (Some r, Some g, Some b) \<Rightarrow> (r, g, b)
         | _ \<Rightarrow> (0, 0, 0))
      else (0, 0, 0))"

definition clampi :: "real \<Rightarrow> nat" where
  "clampi x = nat (max 0 (min 255 \<lfloor>x + 1 / 2\<rfloor>))"

definition channel :: "nat \<Rightarrow> nat \<Rightarrow> real \<Rightarrow> string" where
  "channel a b t = show_nat (clampi (real a + t * (real b - real a)))"

fun example_interpolateRgb :: "string \<Rightarrow> string \<Rightarrow> jsnum \<Rightarrow> string" where
  "example_interpolateRgb c0 c1 (Fin t) =
     (case (rgb_of_hex c0, rgb_of_hex c1) of
        ((r0, g0, b0), (r1, g1, b1)) \<Rightarrow>
          ''rgb('' @ channel r0 r1 t @ '', '' @ channel g0 g1 t @ '', '' @ channel b0 b1 t @ '')'')"
| "example_interpolateRgb c0 c1 t = ''rgb(0, 0, 0)''"

text \<open>
  \<^verbatim>\<open>d3.median\<close> as the specification describes it: the middle value of the sorted numbers
  for an odd count, the mean of the two central values for an even count. As the library
  does, it leaves out what is not a number and returns \<^verbatim>\<open>undefined\<close> when nothing is left.
\<close>

fun num_le :: "jsnum \<Rightarrow> jsnum \<Rightarrow> bool" where
  "num_le NaN b = False"
| "num_le a NaN = False"
| "num_le NegInf b = True"
| "num_le a PosInf = True"
| "num_le (Fin x) (Fin y) = (x \<le> y)"
| "num_le a b = False"

fun insert_num :: "jsnum \<Rightarrow> jsnum list \<Rightarrow> jsnum list" where
  "insert_num x [] = [x]"
| "insert_num x (y # ys) = (if num_le x y then x # y # ys else y # insert_num x ys)"

fun num_add :: "jsnum \<Rightarrow> jsnum \<Rightarrow> jsnum" where
  "num_add NaN b = NaN"
| "num_add a NaN = NaN"
| "num_add PosInf NegInf = NaN"
| "num_add NegInf PosInf = NaN"
| "num_add PosInf b = PosInf"
| "num_add NegInf b = NegInf"
| "num_add a PosInf = PosInf"
| "num_add a NegInf = NegInf"
| "num_add (Fin x) (Fin y) = Fin (x + y)"

definition example_median :: "jsval list \<Rightarrow> jsval" where
  "example_median values =
     (let numbers = filter (\<lambda>n. n \<noteq> NaN)
            (map (\<lambda>v. case v of Str s \<Rightarrow> example_string_to_number s | Num n \<Rightarrow> n | Undefined \<Rightarrow> NaN)
               values);
          sorted = foldr insert_num numbers [];
          n = length sorted
      in if n = 0 then Undefined
         else if odd n then Num (sorted ! (n div 2))
         else Num (num_div (num_add (sorted ! (n div 2 - 1)) (sorted ! (n div 2))) (Fin 2)))"

definition example_host :: host where
  "example_host =
     \<lparr> string_to_number = example_string_to_number,
       number_to_string = example_number_to_string,
       d3_median = example_median,
       d3_interpolateRgb = example_interpolateRgb \<rparr>"

section \<open>Example rows\<close>

text \<open>Cleaned rows, as the point builder receives them.\<close>

definition row_A_neg :: row where
  "row_A_neg =
     [(''Feature ID'', Num (Fin 1)), (''Chemical Name'', Str ''A (ESI-)''),
      (''Ionization Mode'', Str ''ESI-''), (''Retention Time'', Num (Fin 3)),
      (''log RF s1'', Num (Fin 0)), (''Median Log RF'', Num (Fin 0))]"

definition row_B_pos :: row where
  "row_B_pos =
     [(''Feature ID'', Num (Fin 2)), (''Chemical Name'', Str ''B (ESI+)''),
      (''Ionization Mode'', Str ''ESI+''), (''Retention Time'', Num (Fin 5)),
      (''log RF s1'', Num (Fin 1)), (''Median Log RF'', Num (Fin 1))]"

definition row_C :: row where
  "row_C =
     [(''Feature ID'', Num (Fin 3)), (''Chemical Name'', Str ''C (ESI+)''),
      (''Ionization Mode'', Str ''ESI+''), (''Retention Time'', Num (Fin 4)),
      (''log RF sample1_'', Num (Fin 0)), (''log RF sample2'', Num (Fin 1)),
      (''log RF alog RF b'', Num (Fin 2)), (''Median Log RF'', Num (Fin 1))]"

text \<open>
  The two raw rows of the example in the specification, the rows the cleaner makes of
  them, and a third row with the name and mode of the first.
\<close>

definition raw_A_pos :: row where
  "raw_A_pos =
     [(''Chemical Name'', Str ''A''), (''Ionization Mode'', Str ''ESI+''),
      (''RF s1'', Num (Fin 10)), (''RF s2'', Num (Fin 20)), (''Retention Time'', Num (Fin 5))]"

definition raw_A_neg :: row where
  "raw_A_neg =
     [(''Chemical Name'', Str ''A''), (''Ionization Mode'', Str ''ESI-''),
      (''RF s1'', Num (Fin 5)), (''Retention Time'', Num (Fin 3))]"

definition clean_A_pos :: row where
  "clean_A_pos =
     [(''Chemical Name'', Str ''A (ESI+)''), (''Ionization Mode'', Str ''ESI+''),
      (''Retention Time'', Num (Fin 5)),
      (''log RF s1'', Num (Fin (ln 10))), (''log RF s2'', Num (Fin (ln 20))),
      (''Median Log RF'', Num (Fin ((ln 10 + ln 20) / 2)))]"

definition clean_A_neg :: row where
  "clean_A_neg =
     [(''Chemical Name'', Str ''A (ESI-)''), (''Ionization Mode'', Str ''ESI-''),
      (''Retention Time'', Num (Fin 3)),
      (''log RF s1'', Num (Fin (ln 5))), (''Median Log RF'', Num (Fin (ln 5)))]"

definition raw_A_pos_again :: row where
  "raw_A_pos_again =
     [(''Feature ID'', Num (Fin 7)), (''Chemical Name'', Str ''A''), (''Ionization Mode'', Str ''ESI+''),
      (''Retention Time'', Num (Fin 6)), (''Comment'', Str ''rerun''), (''RF s1'', Num (Fin 40))]"

definition clean_A_pos3 :: row where
  "clean_A_pos3 =
     [(''Chemical Name'', Str ''A (ESI+)''), (''Ionization Mode'', Str ''ESI+''),
      (''Retention Time'', Num (Fin 5)),
      (''log RF s1'', Num (Fin (ln 10))), (''log RF s2'', Num (Fin (ln 20))),
      (''Median Log RF'', Num (Fin (ln 20)))]"

definition clean_A_pos_again :: row where
  "clean_A_pos_again =
     [(''Feature ID'', Num (Fin 7)), (''Chemical Name'', Str ''A (ESI+)''),
      (''Ionization Mode'', Str ''ESI+''), (''Retention Time'', Num (Fin 6)),
      (''log RF s1'', Num (Fin (ln 40))), (''Median Log RF'', Num (Fin (ln 20)))]"

text \<open>Two rows for one chemical; the first lists an RF column before the name.\<close>

definition rf_first_row :: row where
  "rf_first_row =
     [(''RF s1'', Num (Fin 1)), (''Chemical Name'', Str ''A''), (''Ionization Mode'', Str ''ESI+'')]"

definition name_first_row :: row where
  "name_first_row =
     [(''Chemical Name'', Str ''A''), (''Ionization Mode'', Str ''ESI+''), (''RF s1'', Num (Fin 2))]"

text \<open>A row without RF columns, and the same row after a first pass of the cleaner.\<close>

definition raw_no_samples :: row where
  "raw_no_samples =
     [(''Feature ID'', Num (Fin 9)), (''Chemical Name'', Str ''B''), (''Ionization Mode'', Str ''ESI+''),
      (''Retention Time'', Num (Fin 8)), (''Comment'', Str ''not measured'')]"

definition touched_no_samples :: row where
  "touched_no_samples =
     [(''Feature ID'', Num (Fin 9)), (''Chemical Name'', Str ''B (ESI+)''),
      (''Ionization Mode'', Str ''ESI+''), (''Retention Time'', Num (Fin 8))]"

text \<open>
  A row whose RF column comes before a name that \<^verbatim>\<open>Object.prototype\<close> has too, and the
  same row when the first pass raises at that column.
\<close>

definition raw_constructor :: row where
  "raw_constructor =
     [(''RF s1'', Num (Fin 1)), (''Chemical Name'', Str ''constructor''),
      (''Ionization Mode'', Str ''ESI+'')]"

definition touched_constructor :: row where
  "touched_constructor =
     [(''Chemical Name'', Str ''constructor''), (''Ionization Mode'', Str ''ESI+''),
      (''log RF s1'', Num (Fin 0))]"

text \<open>A row with a zero, a negative and a non-numeric RF cell, and the cleaner's output.\<close>

definition raw_bad_cells :: row where
  "raw_bad_cells =
     [(''Chemical Name'', Str ''A''), (''Ionization Mode'', Str ''ESI+''),
      (''RF s1'', Num (Fin 0)), (''RF s2'', Num (Fin (- 1))), (''RF s3'', Str ''n/a'')]"

definition clean_bad_cells :: row where
  "clean_bad_cells =
     [(''Chemical Name'', Str ''A (ESI+)''), (''Ionization Mode'', Str ''ESI+''),
      (''log RF s1'', Num NegInf), (''log RF s2'', Num NaN), (''log RF s3'', Num NaN),
      (''Median Log RF'', Num NegInf)]"

text \<open>
  A row of a sheet whose sample is called \<^verbatim>\<open>alog RF b\<close>, and the row the cleaner makes of
  it.
\<close>

definition raw_nested :: row where
  "raw_nested =
     [(''Feature ID'', Num (Fin 3)), (''Chemical Name'', Str ''C''), (''Ionization Mode'', Str ''ESI+''),
      (''Retention Time'', Num (Fin 4)), (''RF alog RF b'', Num (Fin 1))]"

definition clean_nested :: row where
  "clean_nested =
     [(''Feature ID'', Num (Fin 3)), (''Chemical Name'', Str ''C (ESI+)''),
      (''Ionization Mode'', Str ''ESI+''), (''Retention Time'', Num (Fin 4)),
      (''log RF alog RF b'', Num (Fin 0)), (''Median Log RF'', Num (Fin 0))]"

section \<open>The point builder on the empty list\<close>

text \<open>
  C10. On the empty list the point builder does not return the empty point list: it
  reads the name of the first row before the loop, and that read fails, whatever the
  mode.
\<close>

theorem getPointsData_empty_fails:
  "getPointsData h [] showMode = Inl TypeError \<and> getPointsData h [] showMode \<noteq> Inr []"
  by (simp add: getPointsData_def)

section \<open>Splitting a column name\<close>

lemma split_from_hd: "sep \<noteq> [] \<Longrightarrow> \<exists>ps. split_from sep piece s = (piece @ upto sep s) # ps"
  by (induction sep piece s rule: split_from.induct) auto

lemma split_prefix:
  assumes "sep \<noteq> []" and "startsWith key sep"
  shows "\<exists>ps. split key sep = [] # upto sep (drop (length sep) key) # ps"
proof -
  obtain c cs where k: "key = c # cs"
    using assms by (cases key) (auto simp: startsWith_def)
  have d: "drop (length sep - 1) cs = drop (length sep) key"
    using assms(1) k by (cases sep) auto
  obtain ps where p: "split_from sep [] (drop (length sep) key) = upto sep (drop (length sep) key) # ps"
    using split_from_hd[OF assms(1), of "[]" "drop (length sep) key"] by auto
  have "split key sep = split_from sep [] (c # cs)"
    using assms(1) by (simp add: split_def k)
  also have "\<dots> = [] # split_from sep [] (drop (length sep - 1) cs)"
    using assms unfolding k by simp
  finally show ?thesis using p d by simp
qed

lemma endsWith_underscore: "endsWith s ''_'' = (s \<noteq> [] \<and> last s = CHR ''_'')"
proof (cases s rule: rev_cases)
  case Nil
  then show ?thesis by (simp add: endsWith_def)
next
  case (snoc ys y)
  then show ?thesis by (auto simp: endsWith_def)
qed

lemma slice_butlast: "slice_to 0 (length s - 1) s = butlast s"
  by (simp add: slice_to_def butlast_conv_take)

lemma sample_name_ok:
  assumes "startsWith key ''log RF ''"
  shows "sample_name key = Inr (sample_of key)"
proof -
  have "''log RF '' \<noteq> []" by simp
  from split_prefix[OF this assms]
  obtain ps where "split key ''log RF '' =
      [] # upto ''log RF '' (drop (length ''log RF '') key) # ps"
    by blast
  then show ?thesis
    by (simp only: sample_name_def sample_of_def strip_underscore_def endsWith_underscore
        slice_butlast list.case)
qed

lemma upto_no_sep: "\<not> str_includes s sep \<Longrightarrow> upto sep s = s"
  by (induction s) auto

section \<open>The point builder as one pass over the log RF cells\<close>

lemma build_append: "build cols s (ps @ qs) = build cols s ps @ build cols (run s ps) qs"
proof (induction ps arbitrary: s)
  case Nil
  then show ?case by (simp add: run_def)
next
  case (Cons p ps)
  obtain d e where p: "p = (d, e)" by (cases p)
  show ?case
    unfolding p using Cons.IH[of "advance s (row_get d ''Chemical Name'')"]
    by (simp add: run_def)
qed

lemma run_append: "run s (ps @ qs) = run (run s ps) qs"
  by (simp add: run_def)

lemma point_entry_log:
  assumes "is_log e"
  shows "point_entry cols d e (cn, i, acc) =
     Inr (fst (advance (cn, i) (row_get d ''Chemical Name'')),
          snd (advance (cn, i) (row_get d ''Chemical Name'')),
          acc @ [cell_point d e (at_index cols (snd (advance (cn, i) (row_get d ''Chemical Name'')) mod 7))])"
proof -
  obtain key v where e: "e = (key, v)" by (cases e)
  have s: "startsWith key ''log RF ''" using assms e by (simp add: is_log_def)
  show ?thesis
    unfolding e using s sample_name_ok[OF s]
    by (simp add: advance_def cell_point_def Let_def)
qed

lemma point_entry_other:
  assumes "\<not> is_log e"
  shows "point_entry cols d e (cn, i, acc) = Inr (cn, i, acc)"
  using assms by (cases e) (simp add: is_log_def)

lemma point_entries_build:
  "point_entries cols d es (cn, i, acc) =
     Inr (fst (run (cn, i) (map (Pair d) (filter is_log es))),
          snd (run (cn, i) (map (Pair d) (filter is_log es))),
          acc @ build cols (cn, i) (map (Pair d) (filter is_log es)))"
proof (induction es arbitrary: cn i acc)
  case Nil
  then show ?case by (simp add: run_def)
next
  case (Cons e es)
  show ?case
  proof (cases "is_log e")
    case True
    obtain cn' i' where a: "advance (cn, i) (row_get d ''Chemical Name'') = (cn', i')"
      by (cases "advance (cn, i) (row_get d ''Chemical Name'')")
    show ?thesis
      using True a Cons.IH[of cn' i'] point_entry_log[OF True, of cols d cn i acc]
      by (simp add: run_def)
  next
    case False
    then show ?thesis
      using Cons.IH[of cn i acc] point_entry_other[OF False, of cols d cn i acc] by simp
  qed
qed

lemma point_rows_build:
  assumes "point_rows cols showMode ds (cn, i, acc) = Inr (cn', i', out)"
  shows "out = acc @ build cols (cn, i) (cells (kept_rows showMode ds))
         \<and> (cn', i') = run (cn, i) (cells (kept_rows showMode ds))"
  using assms
proof (induction ds arbitrary: cn i acc)
  case Nil
  then show ?case by (simp add: cells_def kept_rows_def run_def)
next
  case (Cons d ds)
  show ?case
  proof (cases "skipped showMode d")
    case (Inl e)
    then show ?thesis using Cons.prems by (simp add: point_row_def)
  next
    case (Inr b)
    show ?thesis
    proof (cases b)
      case True
      then have "point_rows cols showMode ds (cn, i, acc) = Inr (cn', i', out)"
        using Cons.prems Inr by (simp add: point_row_def)
      from Cons.IH[OF this] show ?thesis
        using Inr True by (simp add: kept_rows_def)
    next
      case False
      let ?ps = "map (Pair d) (filter is_log d)"
      obtain cn1 i1 where r: "run (cn, i) ?ps = (cn1, i1)" by (cases "run (cn, i) ?ps")
      have "point_rows cols showMode ds (cn1, i1, acc @ build cols (cn, i) ?ps) = Inr (cn', i', out)"
        using Cons.prems Inr False r point_entries_build[of cols d d cn i acc]
        by (simp add: point_row_def)
      from Cons.IH[OF this] show ?thesis
        using Inr False r
        by (simp add: kept_rows_def cells_def build_append run_append)
    qed
  qed
qed

lemma point_rows_total:
  assumes "\<And>d. d \<in> set ds \<Longrightarrow> \<exists>b. skipped showMode d = Inr b"
  shows "\<exists>st'. point_rows cols showMode ds st = Inr st'"
  using assms
proof (induction ds arbitrary: st)
  case Nil
  show ?case by (rule exI[of _ st]) simp
next
  case (Cons d ds)
  obtain cn i acc where st: "st = (cn, i, acc)" using prod_cases3 by blast
  obtain b where b: "skipped showMode d = Inr b" using Cons.prems by auto
  have "\<exists>st1. point_row cols showMode d st = Inr st1"
    using b point_entries_build[of cols d d cn i acc] by (cases b) (simp_all add: point_row_def st)
  then obtain st1 where "point_row cols showMode d st = Inr st1" by blast
  moreover have "\<exists>st'. point_rows cols showMode ds st1 = Inr st'"
    using Cons.IH Cons.prems by simp
  ultimately show ?case by simp
qed

lemma getPointsData_build:
  assumes "getPointsData h (d0 # ds) showMode = Inr pts"
  shows "pts = build (colors h) (row_get d0 ''Chemical Name'', 0) (cells (kept_rows showMode (d0 # ds)))"
proof -
  obtain cn i where "point_rows (colors h) showMode (d0 # ds) (row_get d0 ''Chemical Name'', 0, []) = Inr (cn, i, pts)"
    using assms by (auto simp: getPointsData_def split: sum.splits)
  from point_rows_build[OF this] show ?thesis by simp
qed

lemma build_chemical: "map chemical (build cols s ps) = map (\<lambda>p. row_get (fst p) ''Chemical Name'') ps"
proof (induction ps arbitrary: s)
  case Nil
  then show ?case by simp
next
  case (Cons p ps)
  obtain d e where p: "p = (d, e)" by (cases p)
  show ?case
    unfolding p using Cons.IH[of "advance s (row_get d ''Chemical Name'')"]
    by (simp add: cell_point_def)
qed

lemma build_logRF: "map logRF (build cols s ps) = map (\<lambda>p. snd (snd p)) ps"
proof (induction ps arbitrary: s)
  case Nil
  then show ?case by simp
next
  case (Cons p ps)
  obtain d e where p: "p = (d, e)" by (cases p)
  show ?case
    unfolding p using Cons.IH[of "advance s (row_get d ''Chemical Name'')"]
    by (simp add: cell_point_def)
qed

lemma build_sampleName: "map sampleName (build cols s ps) = map (\<lambda>p. sample_of (fst (snd p))) ps"
proof (induction ps arbitrary: s)
  case Nil
  then show ?case by simp
next
  case (Cons p ps)
  obtain d e where p: "p = (d, e)" by (cases p)
  show ?case
    unfolding p using Cons.IH[of "advance s (row_get d ''Chemical Name'')"]
    by (simp add: cell_point_def)
qed

lemma build_length: "length (build cols s ps) = length ps"
  using arg_cong[OF build_logRF[of cols s ps], of length] by simp

lemma strict_neq_False: "\<not> strict_neq a b \<Longrightarrow> a = b"
  by (cases "(a, b)" rule: strict_neq.cases) auto

lemma build_color:
  "map color (build cols s ps) =
     map (\<lambda>n. at_index cols (n mod 7))
       (ordinals (fst s) (snd s) (map (\<lambda>p. row_get (fst p) ''Chemical Name'') ps))"
proof (induction ps arbitrary: s)
  case Nil
  then show ?case by simp
next
  case (Cons p ps)
  obtain d e where p: "p = (d, e)" by (cases p)
  show ?case
  proof (cases "strict_neq (row_get d ''Chemical Name'') (fst s)")
    case True
    then show ?thesis
      unfolding p using Cons.IH[of "advance s (row_get d ''Chemical Name'')"]
      by (simp add: advance_def cell_point_def)
  next
    case False
    then have "row_get d ''Chemical Name'' = fst s" by (rule strict_neq_False)
    then show ?thesis
      unfolding p using False Cons.IH[of s]
      by (simp add: advance_def cell_point_def)
  qed
qed

section \<open>The palette of the example host\<close>

lemma hex1: "rgb_of_hex ''#CC00CC'' = (204, 0, 204)" by (simp add: rgb_of_hex_def)

lemma hex2: "rgb_of_hex ''#009090'' = (0, 144, 144)" by (simp add: rgb_of_hex_def)

lemma hex3: "rgb_of_hex ''#FF6600'' = (255, 102, 0)" by (simp add: rgb_of_hex_def)

lemma hex4: "rgb_of_hex ''#FF9933'' = (255, 153, 51)" by (simp add: rgb_of_hex_def)

lemma upt4: "[0..<4] = [0, 1, 2, 3]" by (simp add: upt_rec)

lemma upt2: "[0..<2] = [0, 1]" by (simp add: upt_rec)

lemma gen1: "generateColors example_host ''#CC00CC'' ''#009090'' 4 =
  [''rgb(204, 0, 204)'', ''rgb(136, 48, 184)'', ''rgb(68, 96, 164)'', ''rgb(0, 144, 144)'']"
  by (simp add: generateColors_def example_host_def upt4 hex1 hex2 channel_def clampi_def show_nat.simps)

lemma gen2: "generateColors example_host ''#009090'' ''#FF6600'' 4 =
  [''rgb(0, 144, 144)'', ''rgb(85, 130, 96)'', ''rgb(170, 116, 48)'', ''rgb(255, 102, 0)'']"
  by (simp add: generateColors_def example_host_def upt4 hex3 hex2 channel_def clampi_def show_nat.simps)

lemma gen3: "generateColors example_host ''#FF9933'' ''#CC00CC'' 2 =
  [''rgb(255, 153, 51)'', ''rgb(204, 0, 204)'']"
  by (simp add: generateColors_def example_host_def upt2 hex1 hex4 channel_def clampi_def show_nat.simps)

lemma colors_example: "colors example_host =
  [''rgb(204, 0, 204)'', ''rgb(136, 48, 184)'', ''rgb(68, 96, 164)'', ''rgb(0, 144, 144)'',
   ''rgb(85, 130, 96)'', ''rgb(170, 116, 48)'', ''rgb(255, 102, 0)'']"
  by (simp add: colors_def gen1 gen2 gen3 slice_from_def slice_back_def slice_to_def)

section \<open>Colours\<close>

lemma length_generateColors: "length (generateColors h c0 c1 n) = n"
  by (simp add: generateColors_def)

lemma length_colors: "length (colors h) = 7"
  by (simp add: colors_def length_generateColors slice_from_def slice_back_def slice_to_def)

lemma ordinals_length: "length (ordinals prev n ks) = length ks"
  by (induction ks arbitrary: prev n) auto

lemma at_index_inj:
  assumes "distinct cols" "length cols = 7" "at_index cols (a mod 7) = at_index cols (b mod 7)"
  shows "a mod 7 = b mod 7"
proof -
  have "a mod 7 < length cols" "b mod 7 < length cols" using assms(2) by simp_all
  moreover from this have "cols ! (a mod 7) = cols ! (b mod 7)"
    using assms(3) by (simp add: at_index_def)
  ultimately show ?thesis using assms(1) by (simp add: nth_eq_iff_index_eq)
qed

text \<open>
  C2, amended. Every point gets \<^verbatim>\<open>colors[i % 7]\<close>, where the counter \<open>i\<close> starts at 0
  with the name of the first row of the whole input as the previous name, and goes up
  by one exactly when the point's name differs from the previous one. So the first
  chemical drawn has ordinal 0 when it is the first row of the input and 1 when the
  filter dropped that row. Rows without a log RF column emit no point and do not move
  the counter. When the seven palette entries are distinct, two points of one colour
  have ordinals that agree modulo 7.
\<close>

theorem color_by_ordinal:
  assumes "getPointsData h (d0 # ds) showMode = Inr pts"
  shows "map color pts =
           map (\<lambda>n. at_index (colors h) (n mod 7))
             (ordinals (row_get d0 ''Chemical Name'') 0 (map chemical pts))
         \<and> (distinct (colors h) \<longrightarrow>
              (\<forall>j k. j < length pts \<and> k < length pts \<and> color (pts ! j) = color (pts ! k) \<longrightarrow>
                 ordinals (row_get d0 ''Chemical Name'') 0 (map chemical pts) ! j mod 7
                 = ordinals (row_get d0 ''Chemical Name'') 0 (map chemical pts) ! k mod 7))"
proof -
  let ?os = "ordinals (row_get d0 ''Chemical Name'') 0 (map chemical pts)"
  let ?cs = "cells (kept_rows showMode (d0 # ds))"
  have pts: "pts = build (colors h) (row_get d0 ''Chemical Name'', 0) ?cs"
    using assms by (rule getPointsData_build)
  have chem: "map chemical pts = map (\<lambda>p. row_get (fst p) ''Chemical Name'') ?cs"
    by (subst pts) (rule build_chemical)
  have col: "map color pts = map (\<lambda>n. at_index (colors h) (n mod 7)) ?os"
    unfolding chem by (subst pts) (simp add: build_color)
  have len: "length ?os = length pts" by (simp add: ordinals_length)
  have "ordinals (row_get d0 ''Chemical Name'') 0 (map chemical pts) ! j mod 7
        = ordinals (row_get d0 ''Chemical Name'') 0 (map chemical pts) ! k mod 7"
    if d: "distinct (colors h)" and j: "j < length pts" and k: "k < length pts"
      and e: "color (pts ! j) = color (pts ! k)" for j k
  proof -
    have "color (pts ! j) = map color pts ! j" using j by simp
    also have "\<dots> = at_index (colors h) (?os ! j mod 7)"
      unfolding col using j len by simp
    finally have cj: "color (pts ! j) = at_index (colors h) (?os ! j mod 7)" .
    have "color (pts ! k) = map color pts ! k" using k by simp
    also have "\<dots> = at_index (colors h) (?os ! k mod 7)"
      unfolding col using k len by simp
    finally have ck: "color (pts ! k) = at_index (colors h) (?os ! k mod 7)" .
    show ?thesis using at_index_inj[OF d length_colors] cj ck e by simp
  qed
  then show ?thesis using col by blast
qed

lemmas eval_points =
  getPointsData_def point_row_def skipped_def sample_name_def split_def startsWith_def
  endsWith_def slice_to_def at_index_def colors_example

text \<open>
  C2 as stated fails: with mode \<^verbatim>\<open>+\<close> and a first row in negative mode, the only chemical
  drawn is the first retained one, and it gets the second palette colour, not the first.
\<close>

theorem first_retained_color_counterexample:
  "getPointsData example_host [row_A_neg, row_B_pos] ''+'' =
     Inr [\<lparr> chemical = Str ''B (ESI+)'', logRF = Num (Fin 1), featureId = Num (Fin 2),
            sampleName = ''s1'', mode = Str ''ESI+'', retentionTime = Num (Fin 5),
            color = at_index (colors example_host) 1 \<rparr>]
   \<and> at_index (colors example_host) 1 \<noteq> at_index (colors example_host) 0"
  by (simp add: eval_points row_A_neg_def row_B_pos_def)

text \<open>
  The theorem on two rows in mode \<^verbatim>\<open>both\<close>: the ordinals are 0 and 1, and the palette of
  the example host has seven distinct colours.
\<close>

theorem color_by_ordinal_witness:
  "getPointsData example_host [row_A_neg, row_B_pos] ''both'' =
     Inr [\<lparr> chemical = Str ''A (ESI-)'', logRF = Num (Fin 0), featureId = Num (Fin 1),
            sampleName = ''s1'', mode = Str ''ESI-'', retentionTime = Num (Fin 3),
            color = Str ''rgb(204, 0, 204)'' \<rparr>,
          \<lparr> chemical = Str ''B (ESI+)'', logRF = Num (Fin 1), featureId = Num (Fin 2),
            sampleName = ''s1'', mode = Str ''ESI+'', retentionTime = Num (Fin 5),
            color = Str ''rgb(136, 48, 184)'' \<rparr>]
   \<and> distinct (colors example_host)
   \<and> ordinals (Str ''A (ESI-)'') 0 [Str ''A (ESI-)'', Str ''B (ESI+)''] = [0, 1]"
proof -
  have r: "getPointsData example_host [row_A_neg, row_B_pos] ''both'' =
     Inr [\<lparr> chemical = Str ''A (ESI-)'', logRF = Num (Fin 0), featureId = Num (Fin 1),
            sampleName = ''s1'', mode = Str ''ESI-'', retentionTime = Num (Fin 3),
            color = Str ''rgb(204, 0, 204)'' \<rparr>,
          \<lparr> chemical = Str ''B (ESI+)'', logRF = Num (Fin 1), featureId = Num (Fin 2),
            sampleName = ''s1'', mode = Str ''ESI+'', retentionTime = Num (Fin 5),
            color = Str ''rgb(136, 48, 184)'' \<rparr>]"
    by (simp add: eval_points row_A_neg_def row_B_pos_def)
  have d: "distinct (colors example_host)" by (simp add: colors_example)
  show ?thesis
    using color_by_ordinal[OF r] r d by (simp add: row_A_neg_def)
qed

section \<open>What the point builder returns\<close>

lemma build_uncolored:
  "map (\<lambda>p. p\<lparr>color := Undefined\<rparr>) (build cols s ps) =
     map (\<lambda>c. cell_point (fst c) (snd c) Undefined) ps"
proof (induction ps arbitrary: s)
  case Nil
  then show ?case by simp
next
  case (Cons p ps)
  obtain d e where p: "p = (d, e)" by (cases p)
  show ?case
    unfolding p using Cons.IH[of "advance s (row_get d ''Chemical Name'')"]
    by (simp add: cell_point_def)
qed

lemma skipped_both: "skipped ''both'' d = Inr False"
  by (simp add: skipped_def)

lemma kept_rows_both: "kept_rows ''both'' data = data"
  by (simp add: kept_rows_def skipped_both)

lemma cells_length: "length (cells rows) = sum_list (map (\<lambda>d. length (filter is_log d)) rows)"
  by (simp add: cells_def length_concat comp_def)

lemma getPointsData_returns:
  assumes "data \<noteq> []" and "\<And>d. d \<in> set data \<Longrightarrow> \<exists>b. skipped showMode d = Inr b"
  shows "\<exists>pts. getPointsData h data showMode = Inr pts"
proof -
  obtain d0 ds where data: "data = d0 # ds" using assms(1) by (cases data) auto
  obtain st where "point_rows (colors h) showMode data (row_get d0 ''Chemical Name'', 0, []) = Inr st"
    using point_rows_total[OF assms(2)] by blast
  then show ?thesis
    by (cases st) (simp add: getPointsData_def data)
qed

lemma getPointsData_cells:
  assumes "getPointsData h data showMode = Inr pts"
  shows "\<exists>s. pts = build (colors h) s (cells (kept_rows showMode data))"
proof (cases data)
  case Nil
  then show ?thesis using assms by (simp add: getPointsData_def)
next
  case (Cons d0 ds)
  then show ?thesis using getPointsData_build[of h d0 ds showMode pts] assms by blast
qed

text \<open>
  C7. In mode \<^verbatim>\<open>both\<close> the points returned are, colour aside, one per row and log RF
  column, rows in order and columns in order within a row; their number is the sum over
  the rows of the number of log RF columns. The builder returns for every input that is
  not empty.
\<close>

theorem one_point_per_cell:
  "(\<forall>pts. getPointsData h data ''both'' = Inr pts \<longrightarrow>
      length pts = sum_list (map (\<lambda>d. length (filter is_log d)) data)
      \<and> map (\<lambda>p. p\<lparr>color := Undefined\<rparr>) pts =
          concat (map (\<lambda>d. map (\<lambda>e. cell_point d e Undefined) (filter is_log d)) data))
   \<and> (data \<noteq> [] \<longrightarrow> (\<exists>pts. getPointsData h data ''both'' = Inr pts))"
proof (intro conjI allI impI)
  fix pts
  assume r: "getPointsData h data ''both'' = Inr pts"
  then obtain s where pts: "pts = build (colors h) s (cells data)"
    using getPointsData_cells[OF r] by (auto simp: kept_rows_both)
  show "length pts = sum_list (map (\<lambda>d. length (filter is_log d)) data)"
    by (simp add: pts build_length cells_length)
  show "map (\<lambda>p. p\<lparr>color := Undefined\<rparr>) pts =
          concat (map (\<lambda>d. map (\<lambda>e. cell_point d e Undefined) (filter is_log d)) data)"
    by (simp add: pts build_uncolored cells_def map_concat comp_def)
next
  assume "data \<noteq> []"
  then show "\<exists>pts. getPointsData h data ''both'' = Inr pts"
    by (rule getPointsData_returns) (blast intro: skipped_both)
qed

lemma points_both:
  "getPointsData example_host [row_A_neg, row_C] ''both'' =
     Inr [cell_point row_A_neg (''log RF s1'', Num (Fin 0)) (Str ''rgb(204, 0, 204)''),
          cell_point row_C (''log RF sample1_'', Num (Fin 0)) (Str ''rgb(136, 48, 184)''),
          cell_point row_C (''log RF sample2'', Num (Fin 1)) (Str ''rgb(136, 48, 184)''),
          cell_point row_C (''log RF alog RF b'', Num (Fin 2)) (Str ''rgb(136, 48, 184)'')]"
  by (simp add: eval_points row_A_neg_def row_C_def cell_point_def sample_of_def
      strip_underscore_def)

text \<open>The theorem on a row with one log RF column and a row with three.\<close>

theorem one_point_per_cell_witness:
  "getPointsData example_host [row_A_neg, row_C] ''both'' =
     Inr [cell_point row_A_neg (''log RF s1'', Num (Fin 0)) (Str ''rgb(204, 0, 204)''),
          cell_point row_C (''log RF sample1_'', Num (Fin 0)) (Str ''rgb(136, 48, 184)''),
          cell_point row_C (''log RF sample2'', Num (Fin 1)) (Str ''rgb(136, 48, 184)''),
          cell_point row_C (''log RF alog RF b'', Num (Fin 2)) (Str ''rgb(136, 48, 184)'')]
   \<and> length (filter is_log row_A_neg) = 1 \<and> length (filter is_log row_C) = 3
   \<and> [row_A_neg, row_C] \<noteq> []"
proof -
  have "length (filter is_log row_A_neg) = 1" "length (filter is_log row_C) = 3"
    by (simp_all add: is_log_def startsWith_def row_A_neg_def row_C_def)
  then show ?thesis
    using one_point_per_cell[of example_host "[row_A_neg, row_C]"] points_both by simp
qed

lemma cells_row: "c \<in> set (cells rows) \<Longrightarrow> fst c \<in> set rows"
  by (auto simp: cells_def)

lemma chemical_of_kept:
  assumes "getPointsData h data showMode = Inr pts" and "p \<in> set pts"
  shows "\<exists>d \<in> set (kept_rows showMode data). chemical p = row_get d ''Chemical Name''"
proof -
  obtain s where pts: "pts = build (colors h) s (cells (kept_rows showMode data))"
    using getPointsData_cells[OF assms(1)] by blast
  have "chemical p \<in> set (map chemical pts)" using assms(2) by simp
  then have "chemical p \<in> set (map (\<lambda>c. row_get (fst c) ''Chemical Name'') (cells (kept_rows showMode data)))"
    by (simp only: pts build_chemical)
  then obtain c where "c \<in> set (cells (kept_rows showMode data))"
      and "chemical p = row_get (fst c) ''Chemical Name''" by auto
  then show ?thesis using cells_row by blast
qed

lemma name_includes_False: "name_includes v s = Inr False \<Longrightarrow> \<exists>n. v = Str n \<and> \<not> str_includes n s"
  by (cases v) auto

lemma name_includes_Str: "\<exists>b. name_includes (Str n) s = Inr b"
  by simp

lemma skipped_Str:
  assumes "row_get d ''Chemical Name'' = Str n"
  shows "\<exists>b. skipped showMode d = Inr b"
  using assms by (auto simp: skipped_def)

lemma skipped_plus:
  "(skipped ''+'' d = Inr False)
   = (\<exists>n. row_get d ''Chemical Name'' = Str n \<and> \<not> str_includes n ''(ESI-)'')"
  by (cases "row_get d ''Chemical Name''") (simp_all add: skipped_def)

lemma skipped_minus:
  "(skipped ''-'' d = Inr False)
   = (\<exists>n. row_get d ''Chemical Name'' = Str n \<and> \<not> str_includes n ''(ESI+)'')"
  by (cases "row_get d ''Chemical Name''") (simp_all add: skipped_def)

lemma getPointsData_uncolored:
  assumes "getPointsData h data showMode = Inr pts"
  shows "map (\<lambda>p. p\<lparr>color := Undefined\<rparr>) pts =
          concat (map (\<lambda>d. map (\<lambda>e. cell_point d e Undefined) (filter is_log d))
                    (kept_rows showMode data))"
proof -
  obtain s where pts: "pts = build (colors h) s (cells (kept_rows showMode data))"
    using getPointsData_cells[OF assms] by blast
  show ?thesis by (simp add: pts build_uncolored cells_def map_concat comp_def)
qed

text \<open>
  C3. With mode \<^verbatim>\<open>+\<close> no point returned has a name containing \<^verbatim>\<open>(ESI-)\<close>, and the points
  returned are, colour aside, those of every row whose name does not contain \<^verbatim>\<open>(ESI-)\<close>,
  one per log RF column; with mode \<^verbatim>\<open>-\<close> the same holds for \<^verbatim>\<open>(ESI+)\<close>. With mode
  \<^verbatim>\<open>both\<close> no row is left out: the points returned are those of every row of the input.
  The builder returns whenever the input is not empty and every row has a string name.
\<close>

theorem mode_filter:
  "(\<forall>pts. getPointsData h data ''+'' = Inr pts \<longrightarrow>
      (\<forall>p \<in> set pts. \<exists>n. chemical p = Str n \<and> \<not> str_includes n ''(ESI-)'')
      \<and> map (\<lambda>p. p\<lparr>color := Undefined\<rparr>) pts =
          concat (map (\<lambda>d. map (\<lambda>e. cell_point d e Undefined) (filter is_log d))
            (filter (\<lambda>d. \<exists>n. row_get d ''Chemical Name'' = Str n \<and> \<not> str_includes n ''(ESI-)'')
               data)))
   \<and> (\<forall>pts. getPointsData h data ''-'' = Inr pts \<longrightarrow>
      (\<forall>p \<in> set pts. \<exists>n. chemical p = Str n \<and> \<not> str_includes n ''(ESI+)'')
      \<and> map (\<lambda>p. p\<lparr>color := Undefined\<rparr>) pts =
          concat (map (\<lambda>d. map (\<lambda>e. cell_point d e Undefined) (filter is_log d))
            (filter (\<lambda>d. \<exists>n. row_get d ''Chemical Name'' = Str n \<and> \<not> str_includes n ''(ESI+)'')
               data)))
   \<and> (\<forall>pts. getPointsData h data ''both'' = Inr pts \<longrightarrow>
      map (\<lambda>p. p\<lparr>color := Undefined\<rparr>) pts =
          concat (map (\<lambda>d. map (\<lambda>e. cell_point d e Undefined) (filter is_log d)) data))
   \<and> (data \<noteq> [] \<and> (\<forall>d \<in> set data. \<exists>n. row_get d ''Chemical Name'' = Str n) \<longrightarrow>
        (\<exists>pts. getPointsData h data showMode = Inr pts))"
proof (intro conjI allI impI ballI)
  fix pts p
  assume r: "getPointsData h data ''+'' = Inr pts" and p: "p \<in> set pts"
  obtain d where "d \<in> set (kept_rows ''+'' data)" and c: "chemical p = row_get d ''Chemical Name''"
    using chemical_of_kept[OF r p] by blast
  then have "name_includes (row_get d ''Chemical Name'') ''(ESI-)'' = Inr False"
    by (simp add: kept_rows_def skipped_def)
  then show "\<exists>n. chemical p = Str n \<and> \<not> str_includes n ''(ESI-)''"
    unfolding c by (rule name_includes_False)
next
  fix pts
  assume r: "getPointsData h data ''+'' = Inr pts"
  show "map (\<lambda>p. p\<lparr>color := Undefined\<rparr>) pts =
          concat (map (\<lambda>d. map (\<lambda>e. cell_point d e Undefined) (filter is_log d))
            (filter (\<lambda>d. \<exists>n. row_get d ''Chemical Name'' = Str n \<and> \<not> str_includes n ''(ESI-)'')
               data))"
    using getPointsData_uncolored[OF r] by (simp only: kept_rows_def skipped_plus)
next
  fix pts p
  assume r: "getPointsData h data ''-'' = Inr pts" and p: "p \<in> set pts"
  obtain d where "d \<in> set (kept_rows ''-'' data)" and c: "chemical p = row_get d ''Chemical Name''"
    using chemical_of_kept[OF r p] by blast
  then have "name_includes (row_get d ''Chemical Name'') ''(ESI+)'' = Inr False"
    by (simp add: kept_rows_def skipped_def)
  then show "\<exists>n. chemical p = Str n \<and> \<not> str_includes n ''(ESI+)''"
    unfolding c by (rule name_includes_False)
next
  fix pts
  assume r: "getPointsData h data ''-'' = Inr pts"
  show "map (\<lambda>p. p\<lparr>color := Undefined\<rparr>) pts =
          concat (map (\<lambda>d. map (\<lambda>e. cell_point d e Undefined) (filter is_log d))
            (filter (\<lambda>d. \<exists>n. row_get d ''Chemical Name'' = Str n \<and> \<not> str_includes n ''(ESI+)'')
               data))"
    using getPointsData_uncolored[OF r] by (simp only: kept_rows_def skipped_minus)
next
  fix pts
  assume r: "getPointsData h data ''both'' = Inr pts"
  show "map (\<lambda>p. p\<lparr>color := Undefined\<rparr>) pts =
          concat (map (\<lambda>d. map (\<lambda>e. cell_point d e Undefined) (filter is_log d)) data)"
    using getPointsData_uncolored[OF r] by (simp only: kept_rows_both)
next
  assume a: "data \<noteq> [] \<and> (\<forall>d \<in> set data. \<exists>n. row_get d ''Chemical Name'' = Str n)"
  show "\<exists>pts. getPointsData h data showMode = Inr pts"
  proof (rule getPointsData_returns)
    show "data \<noteq> []" using a by simp
  next
    fix d assume "d \<in> set data"
    then obtain n where "row_get d ''Chemical Name'' = Str n" using a by blast
    then show "\<exists>b. skipped showMode d = Inr b" by (rule skipped_Str)
  qed
qed

lemma points_plus:
  "getPointsData example_host [row_A_neg, row_B_pos] ''+'' =
     Inr [cell_point row_B_pos (''log RF s1'', Num (Fin 1)) (Str ''rgb(136, 48, 184)'')]"
  by (simp add: eval_points row_A_neg_def row_B_pos_def cell_point_def sample_of_def
      strip_underscore_def)

lemma points_minus:
  "getPointsData example_host [row_A_neg, row_B_pos] ''-'' =
     Inr [cell_point row_A_neg (''log RF s1'', Num (Fin 0)) (Str ''rgb(204, 0, 204)'')]"
  by (simp add: eval_points row_A_neg_def row_B_pos_def cell_point_def sample_of_def
      strip_underscore_def)

lemma points_both_modes:
  "getPointsData example_host [row_A_neg, row_B_pos] ''both'' =
     Inr [cell_point row_A_neg (''log RF s1'', Num (Fin 0)) (Str ''rgb(204, 0, 204)''),
          cell_point row_B_pos (''log RF s1'', Num (Fin 1)) (Str ''rgb(136, 48, 184)'')]"
  by (simp add: eval_points row_A_neg_def row_B_pos_def cell_point_def sample_of_def
      strip_underscore_def)

text \<open>
  The theorem on a row in negative mode followed by a row in positive mode: mode \<^verbatim>\<open>+\<close>
  gives the point of the second row, mode \<^verbatim>\<open>-\<close> the point of the first, and mode
  \<^verbatim>\<open>both\<close> the points of both.
\<close>

theorem mode_filter_witness:
  "getPointsData example_host [row_A_neg, row_B_pos] ''+'' =
     Inr [cell_point row_B_pos (''log RF s1'', Num (Fin 1)) (Str ''rgb(136, 48, 184)'')]
   \<and> chemical (cell_point row_B_pos (''log RF s1'', Num (Fin 1)) (Str ''rgb(136, 48, 184)''))
       = Str ''B (ESI+)''
   \<and> \<not> str_includes ''B (ESI+)'' ''(ESI-)''
   \<and> getPointsData example_host [row_A_neg, row_B_pos] ''-'' =
     Inr [cell_point row_A_neg (''log RF s1'', Num (Fin 0)) (Str ''rgb(204, 0, 204)'')]
   \<and> chemical (cell_point row_A_neg (''log RF s1'', Num (Fin 0)) (Str ''rgb(204, 0, 204)''))
       = Str ''A (ESI-)''
   \<and> \<not> str_includes ''A (ESI-)'' ''(ESI+)''
   \<and> getPointsData example_host [row_A_neg, row_B_pos] ''both'' =
     Inr [cell_point row_A_neg (''log RF s1'', Num (Fin 0)) (Str ''rgb(204, 0, 204)''),
          cell_point row_B_pos (''log RF s1'', Num (Fin 1)) (Str ''rgb(136, 48, 184)'')]
   \<and> concat (map (\<lambda>d. map (\<lambda>e. cell_point d e Undefined) (filter is_log d))
        [row_A_neg, row_B_pos])
     = [cell_point row_A_neg (''log RF s1'', Num (Fin 0)) Undefined,
        cell_point row_B_pos (''log RF s1'', Num (Fin 1)) Undefined]
   \<and> row_get row_A_neg ''Chemical Name'' = Str ''A (ESI-)''
   \<and> row_get row_B_pos ''Chemical Name'' = Str ''B (ESI+)''"
proof -
  have c: "chemical (cell_point row_B_pos (''log RF s1'', Num (Fin 1)) (Str ''rgb(136, 48, 184)''))
       = Str ''B (ESI+)''"
    "chemical (cell_point row_A_neg (''log RF s1'', Num (Fin 0)) (Str ''rgb(204, 0, 204)''))
       = Str ''A (ESI-)''"
    "row_get row_A_neg ''Chemical Name'' = Str ''A (ESI-)''"
    "row_get row_B_pos ''Chemical Name'' = Str ''B (ESI+)''"
    by (simp_all add: cell_point_def row_A_neg_def row_B_pos_def)
  have s: "\<not> str_includes ''B (ESI+)'' ''(ESI-)''" "\<not> str_includes ''A (ESI-)'' ''(ESI+)''"
    by (simp_all add: startsWith_def)
  note t = mode_filter[of example_host "[row_A_neg, row_B_pos]" "''+''"]
  have "map (\<lambda>p. p\<lparr>color := Undefined\<rparr>)
          [cell_point row_A_neg (''log RF s1'', Num (Fin 0)) (Str ''rgb(204, 0, 204)''),
           cell_point row_B_pos (''log RF s1'', Num (Fin 1)) (Str ''rgb(136, 48, 184)'')]
        = concat (map (\<lambda>d. map (\<lambda>e. cell_point d e Undefined) (filter is_log d))
            [row_A_neg, row_B_pos])"
    using t points_both_modes by blast
  then have b: "concat (map (\<lambda>d. map (\<lambda>e. cell_point d e Undefined) (filter is_log d))
        [row_A_neg, row_B_pos])
     = [cell_point row_A_neg (''log RF s1'', Num (Fin 0)) Undefined,
        cell_point row_B_pos (''log RF s1'', Num (Fin 1)) Undefined]"
    by (simp add: cell_point_def)
  show ?thesis
    using points_plus points_minus points_both_modes b c s by simp
qed

lemma sample_of_suffix:
  "sample_of (''log RF '' @ suffix) = strip_underscore (upto ''log RF '' suffix)"
  by (simp add: sample_of_def)

text \<open>
  The sample name of a point from column \<^verbatim>\<open>log RF <suffix>\<close> is the part of the suffix
  before its first \<^verbatim>\<open>log RF \<close> (the whole suffix when it has none), less one closing
  underscore. For a suffix that does not contain \<^verbatim>\<open>log RF \<close> this is the suffix less one
  closing underscore.
\<close>

lemma sample_name_of_column:
  "(\<forall>pts. getPointsData h data showMode = Inr pts \<longrightarrow>
      map sampleName pts = map (\<lambda>c. sample_of (fst (snd c))) (cells (kept_rows showMode data)))
   \<and> sample_of (''log RF '' @ suffix) = strip_underscore (upto ''log RF '' suffix)
   \<and> (\<not> str_includes suffix ''log RF '' \<longrightarrow>
        sample_of (''log RF '' @ suffix) = strip_underscore suffix)"
proof (intro conjI allI impI)
  fix pts
  assume r: "getPointsData h data showMode = Inr pts"
  obtain s where pts: "pts = build (colors h) s (cells (kept_rows showMode data))"
    using getPointsData_cells[OF r] by blast
  show "map sampleName pts = map (\<lambda>c. sample_of (fst (snd c))) (cells (kept_rows showMode data))"
    by (simp only: pts build_sampleName)
next
  show "sample_of (''log RF '' @ suffix) = strip_underscore (upto ''log RF '' suffix)"
    by (rule sample_of_suffix)
next
  assume "\<not> str_includes suffix ''log RF ''"
  then have "upto ''log RF '' suffix = suffix" by (rule upto_no_sep)
  then show "sample_of (''log RF '' @ suffix) = strip_underscore suffix"
    by (simp only: sample_of_suffix)
qed

text \<open>
  The columns \<^verbatim>\<open>log RF sample1_\<close>, \<^verbatim>\<open>log RF sample2\<close> and
  \<^verbatim>\<open>log RF alog RF b\<close>.
\<close>

lemma sample_name_of_column_example:
  "getPointsData example_host [row_A_neg, row_C] ''both'' =
     Inr [cell_point row_A_neg (''log RF s1'', Num (Fin 0)) (Str ''rgb(204, 0, 204)''),
          cell_point row_C (''log RF sample1_'', Num (Fin 0)) (Str ''rgb(136, 48, 184)''),
          cell_point row_C (''log RF sample2'', Num (Fin 1)) (Str ''rgb(136, 48, 184)''),
          cell_point row_C (''log RF alog RF b'', Num (Fin 2)) (Str ''rgb(136, 48, 184)'')]
   \<and> \<not> str_includes ''sample1_'' ''log RF '' \<and> \<not> str_includes ''sample2'' ''log RF ''
   \<and> sample_of ''log RF sample1_'' = ''sample1'' \<and> sample_of ''log RF sample2'' = ''sample2''
   \<and> str_includes ''alog RF b'' ''log RF '' \<and> sample_of ''log RF alog RF b'' = ''a''"
proof -
  have i: "\<not> str_includes ''sample1_'' ''log RF ''" "\<not> str_includes ''sample2'' ''log RF ''"
    "str_includes ''alog RF b'' ''log RF ''"
    by (simp_all add: startsWith_def)
  have "sample_of (''log RF '' @ ''sample1_'') = strip_underscore ''sample1_''"
    "sample_of (''log RF '' @ ''sample2'') = strip_underscore ''sample2''"
    "sample_of (''log RF '' @ ''alog RF b'') = strip_underscore (upto ''log RF '' ''alog RF b'')"
    using sample_name_of_column[of example_host "[row_A_neg, row_C]" "''both''" "''sample1_''"]
      sample_name_of_column[of example_host "[row_A_neg, row_C]" "''both''" "''sample2''"]
      sample_name_of_column[of example_host "[row_A_neg, row_C]" "''both''" "''alog RF b''"] i
    by blast+
  then have "sample_of ''log RF sample1_'' = ''sample1''" "sample_of ''log RF sample2'' = ''sample2''"
    "sample_of ''log RF alog RF b'' = ''a''"
    by (simp_all add: strip_underscore_def startsWith_def)
  then show ?thesis using points_both i by simp
qed

section \<open>Sorting twice\<close>

lemma num_sub_antisym: "positive (num_sub a b) \<Longrightarrow> \<not> positive (num_sub b a)"
  by (cases "(a, b)" rule: num_sub.cases) auto

lemma compare_rows_antisym:
  "positive (compare_rows h key a b) \<Longrightarrow> \<not> positive (compare_rows h key b a)"
  unfolding compare_rows_def by (rule num_sub_antisym)

lemma insert_sorted_in_order:
  assumes "\<And>a b. positive (cmp a b) \<Longrightarrow> \<not> positive (cmp b a)" and "in_order cmp ys"
  shows "in_order cmp (insert_sorted cmp x ys)"
  using assms(2)
proof (induction ys)
  case Nil
  then show ?case by simp
next
  case (Cons y ys)
  show ?case
  proof (cases ys)
    case Nil
    then show ?thesis using assms(1)[of x y] by auto
  next
    case (Cons z zs)
    then show ?thesis using Cons.IH Cons.prems assms(1)[of x y] by auto
  qed
qed

lemma insertion_in_order:
  assumes "\<And>a b. positive (cmp a b) \<Longrightarrow> \<not> positive (cmp b a)"
  shows "in_order cmp (foldr (insert_sorted cmp) xs [])"
  by (induction xs) (simp_all add: insert_sorted_in_order[OF assms])

lemma insertion_sorted: "in_order cmp xs \<Longrightarrow> foldr (insert_sorted cmp) xs [] = xs"
proof (induction xs)
  case Nil
  then show ?case by simp
next
  case (Cons x xs)
  show ?case
  proof (cases xs)
    case Nil
    then show ?thesis by simp
  next
    case (Cons y ys)
    then have "foldr (insert_sorted cmp) xs [] = xs" and "\<not> positive (cmp x y)"
      using Cons.IH Cons.prems by simp_all
    then show ?thesis using Cons by simp
  qed
qed

lemma insertion_set: "set (foldr (insert_sorted cmp) xs []) = set xs"
proof -
  have "set (insert_sorted cmp x ys) = insert x (set ys)" for x ys
    by (induction ys) auto
  then show ?thesis by (induction xs) auto
qed

lemma insertion_length: "length (foldr (insert_sorted cmp) xs []) = length xs"
proof -
  have "length (insert_sorted cmp x ys) = Suc (length ys)" for x ys
    by (induction ys) auto
  then show ?thesis by (induction xs) auto
qed

lemma consistent_set: "set xs = set ys \<Longrightarrow> consistent cmp xs = consistent cmp ys"
  by (simp add: consistent_def)

lemma array_sort_Some:
  "array_sort cmp xs = Some ys \<longleftrightarrow> consistent cmp xs \<and> ys = foldr (insert_sorted cmp) xs []"
  by (auto simp: array_sort_def)

lemma array_sort_idem:
  assumes "\<And>a b. positive (cmp a b) \<Longrightarrow> \<not> positive (cmp b a)"
    and "array_sort cmp xs = Some ys"
  shows "array_sort cmp ys = Some ys"
proof -
  have c: "consistent cmp xs" and ys: "ys = foldr (insert_sorted cmp) xs []"
    using assms(2) by (simp_all add: array_sort_Some)
  have "set ys = set xs" using ys by (simp add: insertion_set)
  then have "consistent cmp ys" using c consistent_set by blast
  moreover have "foldr (insert_sorted cmp) ys [] = ys"
    unfolding ys by (rule insertion_sorted) (rule insertion_in_order[OF assms(1)])
  ultimately show ?thesis by (simp add: array_sort_def)
qed

text \<open>
  Keys that are numbers (\<^verbatim>\<open>NaN\<close> apart) are compared consistently: \<^verbatim>\<open>a - b\<close> is negative,
  zero or \<^verbatim>\<open>NaN\<close>, or positive as \<open>a\<close> is below, equal to, or above \<open>b\<close> in the order
  \<open>-\<infinity> < x < \<infinity>\<close>.
\<close>

lemma num_sub_consistent3:
  "a \<noteq> NaN \<Longrightarrow> b \<noteq> NaN \<Longrightarrow> c \<noteq> NaN \<Longrightarrow> consistent3 num_sub a b c"
  by (cases a; cases b; cases c; simp add: consistent3_def)

lemma compare_rows_consistent3:
  "consistent3 (compare_rows h key) a b c
   = consistent3 num_sub (to_number h (row_get a key)) (to_number h (row_get b key))
       (to_number h (row_get c key))"
  by (simp add: consistent3_def compare_rows_def)

lemma compare_rows_consistent:
  assumes "\<And>r. r \<in> set xs \<Longrightarrow> to_number h (row_get r key) \<noteq> NaN"
  shows "consistent (compare_rows h key) xs"
  unfolding consistent_def compare_rows_consistent3
  using assms by (blast intro: num_sub_consistent3)

text \<open>
  With a key that is \<^verbatim>\<open>NaN\<close> between two keys that differ the comparator is not
  consistent, and the order is left to the engine.
\<close>

lemma array_sort_NaN_key:
  "array_sort (compare_rows example_host ''Retention Time'')
     [[(''Retention Time'', Num (Fin 2))], [(''Retention Time'', Num NaN)],
      [(''Retention Time'', Num (Fin 1))]] = None"
proof -
  have "\<not> consistent3 (compare_rows example_host ''Retention Time'')
          [(''Retention Time'', Num (Fin 2))] [(''Retention Time'', Num NaN)]
          [(''Retention Time'', Num (Fin 1))]"
    by (simp add: consistent3_def compare_rows_def)
  then have "\<not> consistent (compare_rows example_host ''Retention Time'')
     [[(''Retention Time'', Num (Fin 2))], [(''Retention Time'', Num NaN)],
      [(''Retention Time'', Num (Fin 1))]]"
    unfolding consistent_def by (meson list.set_intros)
  then show ?thesis by (simp add: array_sort_def)
qed

text \<open>
  On rows whose keys are finite numbers the model of \<^verbatim>\<open>sort\<close> is the stable sort by the
  key.
\<close>

lemma insert_sorted_insort_key:
  assumes "to_number h (row_get x key) = Fin a"
    and "\<And>r. r \<in> set ys \<Longrightarrow> \<exists>b. to_number h (row_get r key) = Fin b"
  shows "insert_sorted (compare_rows h key) x ys = insort_key (finite_key h key) x ys"
  using assms(2)
proof (induction ys)
  case Nil
  then show ?case by simp
next
  case (Cons y ys)
  obtain b where b: "to_number h (row_get y key) = Fin b" using Cons.prems by auto
  have "positive (compare_rows h key x y) = (\<not> finite_key h key x \<le> finite_key h key y)"
    using assms(1) b by (auto simp: compare_rows_def finite_key_def)
  then show ?case using Cons by simp
qed

lemma insertion_sort_key:
  assumes "\<And>r. r \<in> set xs \<Longrightarrow> \<exists>a. to_number h (row_get r key) = Fin a"
  shows "foldr (insert_sorted (compare_rows h key)) xs [] = sort_key (finite_key h key) xs"
  using assms
proof (induction xs)
  case Nil
  then show ?case by simp
next
  case (Cons x xs)
  obtain a where a: "to_number h (row_get x key) = Fin a" using Cons.prems by auto
  have ih: "foldr (insert_sorted (compare_rows h key)) xs [] = sort_key (finite_key h key) xs"
    using Cons by simp
  have "foldr (insert_sorted (compare_rows h key)) (x # xs) []
        = insert_sorted (compare_rows h key) x (foldr (insert_sorted (compare_rows h key)) xs [])"
    by simp
  also have "\<dots> = insort_key (finite_key h key) x (foldr (insert_sorted (compare_rows h key)) xs [])"
  proof (rule insert_sorted_insort_key[OF a])
    fix r assume "r \<in> set (foldr (insert_sorted (compare_rows h key)) xs [])"
    then have "r \<in> set (x # xs)" by (simp add: insertion_set)
    then show "\<exists>b. to_number h (row_get r key) = Fin b" by (rule Cons.prems)
  qed
  finally show ?case using ih by simp
qed

lemma array_sort_sort_key:
  assumes "\<And>r. r \<in> set xs \<Longrightarrow> \<exists>a. to_number h (row_get r key) = Fin a"
  shows "array_sort (compare_rows h key) xs = Some (sort_key (finite_key h key) xs)"
proof -
  have "to_number h (row_get r key) \<noteq> NaN" if "r \<in> set xs" for r
    using assms[OF that] by auto
  then have "consistent (compare_rows h key) xs" by (rule compare_rows_consistent)
  then show ?thesis by (simp add: array_sort_def insertion_sort_key[OF assms])
qed

lemma makeStripPlot_sort_column:
  "makeStripPlot h data sortedBy showMode =
     (case array_sort (compare_rows h (sort_column sortedBy)) data of
        None \<Rightarrow> None
      | Some arr \<Rightarrow> Some (arr, getPointsData h arr showMode))"
  by (simp add: makeStripPlot_def sort_column_def)

text \<open>
  C6. Whenever the sort fixes the order of the array (the comparator is consistent on
  its rows), sorting by a key and building the points, then doing both again on the
  sorted array with the same key and mode, gives the same array and the same result:
  the same points with the same colours (or the same error). The order is fixed whenever
  no row's key converts to \<^verbatim>\<open>NaN\<close>; when every key is a finite number the array is sorted
  by ascending key with rows of equal key in their previous order.
\<close>

theorem sort_and_build_idempotent:
  "(\<forall>arr res. makeStripPlot h data sortedBy showMode = Some (arr, res) \<longrightarrow>
       makeStripPlot h arr sortedBy showMode = Some (arr, res))
   \<and> ((\<forall>r \<in> set data. to_number h (row_get r (sort_column sortedBy)) \<noteq> NaN) \<longrightarrow>
        (\<exists>arr res. makeStripPlot h data sortedBy showMode = Some (arr, res)))
   \<and> ((\<forall>r \<in> set data. \<exists>x. to_number h (row_get r (sort_column sortedBy)) = Fin x) \<longrightarrow>
        makeStripPlot h data sortedBy showMode
        = Some (sort_key (finite_key h (sort_column sortedBy)) data,
                getPointsData h (sort_key (finite_key h (sort_column sortedBy)) data) showMode))"
proof (intro conjI allI impI)
  fix arr res
  assume a: "makeStripPlot h data sortedBy showMode = Some (arr, res)"
  then have s: "array_sort (compare_rows h (sort_column sortedBy)) data = Some arr"
    and r: "res = getPointsData h arr showMode"
    by (auto simp: makeStripPlot_sort_column split: option.splits)
  have "array_sort (compare_rows h (sort_column sortedBy)) arr = Some arr"
    using compare_rows_antisym s by (rule array_sort_idem)
  then show "makeStripPlot h arr sortedBy showMode = Some (arr, res)"
    using r by (simp add: makeStripPlot_sort_column)
next
  assume "\<forall>r \<in> set data. to_number h (row_get r (sort_column sortedBy)) \<noteq> NaN"
  then have "consistent (compare_rows h (sort_column sortedBy)) data"
    by (intro compare_rows_consistent) blast
  then show "\<exists>arr res. makeStripPlot h data sortedBy showMode = Some (arr, res)"
    by (simp add: makeStripPlot_sort_column array_sort_def)
next
  assume "\<forall>r \<in> set data. \<exists>x. to_number h (row_get r (sort_column sortedBy)) = Fin x"
  then have "array_sort (compare_rows h (sort_column sortedBy)) data
             = Some (sort_key (finite_key h (sort_column sortedBy)) data)"
    by (intro array_sort_sort_key) blast
  then show "makeStripPlot h data sortedBy showMode
        = Some (sort_key (finite_key h (sort_column sortedBy)) data,
                getPointsData h (sort_key (finite_key h (sort_column sortedBy)) data) showMode)"
    by (simp add: makeStripPlot_sort_column)
qed

text \<open>
  The theorem on a row with retention time 5 followed by a row with retention time 3,
  sorted by retention time and shown in positive mode.
\<close>

lemma rt_keys:
  "to_number example_host (row_get row_A_neg ''Retention Time'') = Fin 3"
  "to_number example_host (row_get row_B_pos ''Retention Time'') = Fin 5"
  by (simp_all add: row_A_neg_def row_B_pos_def)

lemma rt_sorted:
  "sort_key (finite_key example_host ''Retention Time'') [row_B_pos, row_A_neg]
   = [row_A_neg, row_B_pos]"
  by (simp add: finite_key_def rt_keys)

theorem sort_and_build_idempotent_witness:
  "makeStripPlot example_host [row_B_pos, row_A_neg] ''rt'' ''+''
     = Some ([row_A_neg, row_B_pos],
             Inr [cell_point row_B_pos (''log RF s1'', Num (Fin 1)) (Str ''rgb(136, 48, 184)'')])
   \<and> makeStripPlot example_host [row_A_neg, row_B_pos] ''rt'' ''+''
     = Some ([row_A_neg, row_B_pos],
             Inr [cell_point row_B_pos (''log RF s1'', Num (Fin 1)) (Str ''rgb(136, 48, 184)'')])"
proof -
  have c: "sort_column ''rt'' = ''Retention Time''" by (simp add: sort_column_def)
  have k: "\<forall>r \<in> set [row_B_pos, row_A_neg].
             \<exists>x. to_number example_host (row_get r (sort_column ''rt'')) = Fin x"
    unfolding c by (simp add: rt_keys)
  note t = sort_and_build_idempotent[of example_host "[row_B_pos, row_A_neg]" "''rt''" "''+''"]
  have first: "makeStripPlot example_host [row_B_pos, row_A_neg] ''rt'' ''+''
     = Some ([row_A_neg, row_B_pos],
             Inr [cell_point row_B_pos (''log RF s1'', Num (Fin 1)) (Str ''rgb(136, 48, 184)'')])"
    using t k unfolding c by (simp only: rt_sorted points_plus)
  then have "makeStripPlot example_host [row_A_neg, row_B_pos] ''rt'' ''+''
     = Some ([row_A_neg, row_B_pos],
             Inr [cell_point row_B_pos (''log RF s1'', Num (Fin 1)) (Str ''rgb(136, 48, 184)'')])"
    using t by blast
  with first show ?thesis by simp
qed

section \<open>The cleaner, entry by entry\<close>

lemma row_get_put: "row_get (row_put k v r) k' = (if k' = k then v else row_get r k')"
  by (induction r) auto

lemma row_get_delete: "row_get (row_delete k r) k' = (if k' = k then Undefined else row_get r k')"
  by (induction r) (auto simp: row_delete_def)

lemma keys_put: "keys (row_put k v r) = insert k (keys r)"
  by (induction r) (force simp: keys_def)+

lemma keys_delete: "keys (row_delete k r) = keys r - {k}"
  by (auto simp: keys_def row_delete_def)

lemma row_put_absent: "k \<notin> keys r \<Longrightarrow> row_put k v r = r @ [(k, v)]"
  by (induction r) (force simp: keys_def)+

lemma filter_put: "\<not> P k \<Longrightarrow> filter (\<lambda>e. P (fst e)) (row_put k v r) = filter (\<lambda>e. P (fst e)) r"
  by (induction r) auto

lemma filter_delete: "\<not> P k \<Longrightarrow> filter (\<lambda>e. P (fst e)) (row_delete k r) = filter (\<lambda>e. P (fst e)) r"
  by (induction r) (auto simp: row_delete_def)

lemma log_of_rf: "startsWith c ''RF '' \<Longrightarrow> startsWith (''log '' @ c) ''log RF ''"
  by (simp add: startsWith_def)

lemma rf_not_name: "startsWith c ''RF '' \<Longrightarrow> c \<noteq> ''Chemical Name''"
  by (auto simp: startsWith_def)

lemma log_not_name: "''log '' @ c \<noteq> ''Chemical Name''"
  by simp

text \<open>One entry of the first pass, by cases.\<close>

lemma clean_entry_drop:
  assumes "\<not> startsWith c ''RF ''" "c \<notin> set columnsToKeep"
  shows "clean_entry h (c, v) (row, l) = Inr (row_delete c row, l)"
  using assms by simp

lemma clean_entry_name:
  shows "clean_entry h (''Chemical Name'', v) (row, l) =
     Inr (row_put ''Chemical Name''
            (Str (to_string h (row_get row ''Chemical Name'') @ '' (''
                  @ to_string h (row_get row ''Ionization Mode'') @ '')'')) row, l)"
  by (simp add: columnsToKeep_def startsWith_def)

lemma clean_entry_keep:
  assumes "c \<in> set columnsToKeep" "c \<noteq> ''Chemical Name''"
  shows "clean_entry h (c, v) (row, l) = Inr (row, l)"
proof -
  have "\<not> startsWith c ''RF ''" using assms(1) by (auto simp: columnsToKeep_def startsWith_def)
  then show ?thesis using assms by simp
qed

lemma clean_entry_rf:
  assumes "startsWith c ''RF ''"
  shows "clean_entry h (c, v) (row, l) =
     (case l (to_string h (row_get row ''Chemical Name'')) of
        Some logs \<Rightarrow> Inr (rf_row h c v row,
           l(to_string h (row_get row ''Chemical Name'') \<mapsto> logs @ [Num (math_log (to_number h v))]))
      | None \<Rightarrow>
          if to_string h (row_get row ''Chemical Name'') \<in> set objectPrototype
          then Inl (TypeError, rf_row h c v row, l)
          else Inr (rf_row h c v row,
             l(to_string h (row_get row ''Chemical Name'') \<mapsto> [Num (math_log (to_number h v))])))"
proof -
  have n: "c \<noteq> ''Chemical Name''" using assms by (rule rf_not_name)
  have c: "''log '' @ c \<noteq> c" by (metis append_self_conv2 list.distinct(1) append_Cons)
  have g: "row_get (row_delete c (row_put (''log '' @ c) (Num (math_log (to_number h v))) row))
              ''Chemical Name'' = row_get row ''Chemical Name''"
    using n by (simp add: row_get_delete row_get_put)
  have g2: "row_get (row_delete c (row_put (''log '' @ c) (Num (math_log (to_number h v))) row))
              (''log '' @ c) = Num (math_log (to_number h v))"
    using c by (simp add: row_get_delete row_get_put)
  show ?thesis
    unfolding rf_row_def using assms n g g2 by (simp add: Let_def split: option.splits)
qed

lemma clean_entry_cases:
  obtains (drop) "\<not> startsWith c ''RF ''" "c \<notin> set columnsToKeep"
  | (name) "c = ''Chemical Name''"
  | (keep) "c \<in> set columnsToKeep" "c \<noteq> ''Chemical Name''"
  | (rf) "startsWith c ''RF ''"
  by blast

section \<open>The columns of the cleaned rows\<close>

lemma clean_entry_keys:
  assumes "clean_entry h (c, v) (row, l) = Inr (row', l')"
  shows "keys row' \<subseteq> {k. retained_column k} \<union> (keys row - {c})"
proof (cases c rule: clean_entry_cases)
  case drop
  then show ?thesis using assms by (auto simp: keys_delete)
next
  case name
  then show ?thesis
    using assms unfolding name clean_entry_name
    by (auto simp: keys_put retained_column_def columnsToKeep_def)
next
  case keep
  then show ?thesis
    using assms clean_entry_keep[OF keep, of h v row l] by (auto simp: retained_column_def)
next
  case rf
  have "row' = rf_row h c v row"
    using assms unfolding clean_entry_rf[OF rf] by (auto split: option.splits if_splits)
  then show ?thesis
    using log_of_rf[OF rf] by (auto simp: rf_row_def keys_delete keys_put retained_column_def)
qed

lemma clean_entries_keys:
  assumes "clean_entries h es (row, l) = Inr (row', l')"
    and "keys row \<subseteq> {k. retained_column k} \<union> fst ` set es"
  shows "keys row' \<subseteq> {k. retained_column k}"
  using assms
proof (induction es arbitrary: row l)
  case Nil
  then show ?case by simp
next
  case (Cons e es)
  obtain c v where e: "e = (c, v)" by (cases e)
  obtain row1 l1 where s: "clean_entry h (c, v) (row, l) = Inr (row1, l1)"
    and r: "clean_entries h es (row1, l1) = Inr (row', l')"
    using Cons.prems(1) unfolding e by (auto split: sum.splits)
  have "keys row1 \<subseteq> {k. retained_column k} \<union> fst ` set es"
    using clean_entry_keys[OF s] Cons.prems(2) unfolding e by auto
  then show ?case using Cons.IH[OF r] by simp
qed

lemma clean_rows_keys:
  assumes "clean_rows h rows l = Inr (rows', l')"
  shows "length rows' = length rows \<and> (\<forall>r \<in> set rows'. keys r \<subseteq> {k. retained_column k})"
  using assms
proof (induction rows arbitrary: l rows')
  case Nil
  then show ?case by simp
next
  case (Cons row rows)
  obtain row1 l1 where s: "clean_entries h row (row, l) = Inr (row1, l1)"
    using Cons.prems by (auto split: sum.splits)
  obtain rest where r: "clean_rows h rows l1 = Inr (rest, l')" and rows': "rows' = row1 # rest"
    using Cons.prems s by (auto split: sum.splits)
  have "keys row \<subseteq> {k. retained_column k} \<union> fst ` set row" by (auto simp: keys_def)
  then have "keys row1 \<subseteq> {k. retained_column k}" using clean_entries_keys[OF s] by simp
  then show ?case using Cons.IH[OF r] rows' by simp
qed

lemma add_medians_map:
  assumes "add_medians h l rows = Inr out"
  shows "out = map (\<lambda>r. row_put ''Median Log RF'' (d3_median h (the (l (chem_key h r)))) r) rows
         \<and> (\<forall>r \<in> set rows. l (chem_key h r) \<noteq> None)"
  using assms
proof (induction rows arbitrary: out)
  case Nil
  then show ?case by simp
next
  case (Cons row rows)
  obtain vs where vs: "l (chem_key h row) = Some vs"
    using Cons.prems by (auto simp: chem_key_def split: option.splits)
  obtain rest where r: "add_medians h l rows = Inr rest"
    and out: "out = row_put ''Median Log RF'' (d3_median h vs) row # rest"
    using Cons.prems vs by (auto simp: chem_key_def split: sum.splits)
  show ?case using Cons.IH[OF r] vs out by simp
qed

lemma startsWith_hd: "startsWith s (x # p) \<Longrightarrow> \<exists>t. s = x # t"
  by (cases s) (auto simp: startsWith_def)

lemma rf_not_log: "startsWith c ''RF '' \<Longrightarrow> \<not> startsWith c ''log RF ''"
proof
  assume "startsWith c ''RF ''" and l: "startsWith c ''log RF ''"
  then obtain t where "c = CHR ''R'' # t" using startsWith_hd by blast
  then show False using l by (simp add: startsWith_def)
qed

lemma kept_not_rf: "c \<in> set columnsToKeep \<Longrightarrow> \<not> startsWith c ''RF ''"
  by (auto simp: columnsToKeep_def startsWith_def)

lemma median_not_rf: "\<not> startsWith ''Median Log RF'' ''RF ''"
  by (simp add: startsWith_def)

text \<open>
  C5. The array the cleaner returns has the length of the input, and every column of
  every row is one of the four identity columns, a column with the prefix \<^verbatim>\<open>log RF \<close>,
  or \<^verbatim>\<open>Median Log RF\<close>; no column with the prefix \<^verbatim>\<open>RF \<close> is left.
\<close>

theorem cleaned_columns:
  assumes "cleanData h data = Inr out"
  shows "length out = length data
         \<and> (\<forall>r \<in> set out. \<forall>c \<in> fst ` set r.
               c \<in> set columnsToKeep \<or> startsWith c ''log RF '' \<or> c = ''Median Log RF'')
         \<and> (\<forall>r \<in> set out. \<forall>c \<in> fst ` set r. \<not> startsWith c ''RF '')"
proof -
  obtain rows l where f: "clean_rows h data Map.empty = Inr (rows, l)"
    and m: "add_medians h l rows = Inr out"
    using assms by (auto simp: cleanData_def split: sum.splits)
  have len: "length rows = length data" and ks: "\<forall>r \<in> set rows. keys r \<subseteq> {k. retained_column k}"
    using clean_rows_keys[OF f] by simp_all
  have out: "out = map (\<lambda>r. row_put ''Median Log RF'' (d3_median h (the (l (chem_key h r)))) r) rows"
    using add_medians_map[OF m] by simp
  have cols: "c \<in> set columnsToKeep \<or> startsWith c ''log RF '' \<or> c = ''Median Log RF''"
    if a: "r \<in> set out" and b: "c \<in> fst ` set r" for r c
  proof -
    obtain r0 where r0: "r0 \<in> set rows"
      and r: "r = row_put ''Median Log RF'' (d3_median h (the (l (chem_key h r0)))) r0"
      using a out by auto
    have "c \<in> insert ''Median Log RF'' (keys r0)"
      using b keys_put[of "''Median Log RF''" _ r0] unfolding r keys_def by simp
    then show ?thesis using ks r0 by (auto simp: retained_column_def)
  qed
  have "\<not> startsWith c ''RF ''" if "r \<in> set out" "c \<in> fst ` set r" for r c
    using cols[OF that] rf_not_log[of c] kept_not_rf[of c] median_not_rf by blast
  then show ?thesis using len out cols by simp
qed

lemmas eval_clean =
  cleanData_def columnsToKeep_def objectPrototype_def startsWith_def row_delete_def
  example_host_def example_median_def Let_def

text \<open>
  The two rows of the example: the names become \<^verbatim>\<open>A (ESI+)\<close> and \<^verbatim>\<open>A (ESI-)\<close>, the log
  values are \<open>ln 10\<close>, \<open>ln 20\<close> and \<open>ln 5\<close>, and each name has its own median.
\<close>

lemma cleanData_example:
  "cleanData example_host [raw_A_pos, raw_A_neg] = Inr [clean_A_pos, clean_A_neg]"
  by (simp add: eval_clean raw_A_pos_def raw_A_neg_def clean_A_pos_def clean_A_neg_def)

lemma cleanData_three:
  "cleanData example_host [raw_A_pos, raw_A_neg, raw_A_pos_again]
     = Inr [clean_A_pos3, clean_A_neg, clean_A_pos_again]"
  by (simp add: eval_clean raw_A_pos_def raw_A_neg_def raw_A_pos_again_def
      clean_A_pos3_def clean_A_neg_def clean_A_pos_again_def)

text \<open>
  The theorem on three rows: the third loses its \<^verbatim>\<open>Comment\<close> and \<^verbatim>\<open>RF s1\<close> columns.
\<close>

theorem cleaned_columns_witness:
  "cleanData example_host [raw_A_pos, raw_A_neg, raw_A_pos_again]
     = Inr [clean_A_pos3, clean_A_neg, clean_A_pos_again]
   \<and> length [clean_A_pos3, clean_A_neg, clean_A_pos_again]
       = length [raw_A_pos, raw_A_neg, raw_A_pos_again]
   \<and> map fst clean_A_pos_again =
       [''Feature ID'', ''Chemical Name'', ''Ionization Mode'', ''Retention Time'',
        ''log RF s1'', ''Median Log RF'']
   \<and> ''Comment'' \<in> fst ` set raw_A_pos_again \<and> ''RF s1'' \<in> fst ` set raw_A_pos_again"
proof -
  have a: "map fst clean_A_pos_again =
       [''Feature ID'', ''Chemical Name'', ''Ionization Mode'', ''Retention Time'',
        ''log RF s1'', ''Median Log RF'']"
    by (simp add: clean_A_pos_again_def)
  have b: "''Comment'' \<in> fst ` set raw_A_pos_again" "''RF s1'' \<in> fst ` set raw_A_pos_again"
    by (simp_all add: raw_A_pos_again_def)
  show ?thesis
    using cleaned_columns[OF cleanData_three] cleanData_three a b by simp
qed

section \<open>The median of a name\<close>

lemma add_logs_Nil: "add_logs l k [] = l"
  by (simp add: add_logs_def)

lemma add_logs_Cons: "add_logs (add_logs l k [v]) k vs = add_logs l k (v # vs)"
  by (auto simp: add_logs_def split: option.splits)

lemma clean_entry_other:
  assumes "\<not> startsWith c ''RF ''"
  shows "\<exists>row'. clean_entry h (c, v) (row, l) = Inr (row', l)
           \<and> (c \<noteq> ''Chemical Name'' \<longrightarrow> row_get row' ''Chemical Name'' = row_get row ''Chemical Name'')"
proof (cases c rule: clean_entry_cases)
  case drop
  then show ?thesis by (simp add: row_get_delete)
next
  case name
  then show ?thesis unfolding name clean_entry_name by simp
next
  case keep
  then show ?thesis using clean_entry_keep[OF keep, of h v row l] by simp
next
  case rf
  then show ?thesis using assms by simp
qed

lemma rf_row_name: "startsWith c ''RF '' \<Longrightarrow> row_get (rf_row h c v row) ''Chemical Name'' = row_get row ''Chemical Name''"
  using rf_not_name[of c] by (simp add: rf_row_def row_get_delete row_get_put)

lemma clean_entry_rf_ok:
  assumes "startsWith c ''RF ''" and "clean_entry h (c, v) (row, l) = Inr (row', l')"
  shows "row' = rf_row h c v row
         \<and> l' = add_logs l (chem_key h row) [Num (math_log (to_number h v))]"
  using assms(2) unfolding clean_entry_rf[OF assms(1)]
  by (auto simp: add_logs_def chem_key_def split: option.splits if_splits)

lemma clean_entries_name_stable:
  assumes "''Chemical Name'' \<notin> fst ` set es" and "clean_entries h es (row, l) = Inr (row', l')"
  shows "row_get row' ''Chemical Name'' = row_get row ''Chemical Name''
         \<and> l' = add_logs l (chem_key h row) (log_values h es)"
  using assms
proof (induction es arbitrary: row l)
  case Nil
  then show ?case by (simp add: log_values_def add_logs_Nil)
next
  case (Cons e es)
  obtain c v where e: "e = (c, v)" by (cases e)
  have c: "c \<noteq> ''Chemical Name''" and es: "''Chemical Name'' \<notin> fst ` set es"
    using Cons.prems(1) e by auto
  obtain row1 l1 where s: "clean_entry h (c, v) (row, l) = Inr (row1, l1)"
    and r: "clean_entries h es (row1, l1) = Inr (row', l')"
    using Cons.prems(2) unfolding e by (auto split: sum.splits)
  note ih = Cons.IH[OF es r]
  show ?case
  proof (cases "startsWith c ''RF ''")
    case True
    have row1: "row1 = rf_row h c v row"
      and l1: "l1 = add_logs l (chem_key h row) [Num (math_log (to_number h v))]"
      using clean_entry_rf_ok[OF True s] by simp_all
    have k: "chem_key h row1 = chem_key h row"
      unfolding row1 chem_key_def by (simp add: rf_row_name[OF True])
    have lv: "log_values h (e # es) = Num (math_log (to_number h v)) # log_values h es"
      using True e by (simp add: log_values_def)
    show ?thesis
      using ih unfolding k lv l1 add_logs_Cons
      by (simp add: row1 rf_row_name[OF True])
  next
    case False
    obtain r1 where "clean_entry h (c, v) (row, l) = Inr (r1, l)"
      and "row_get r1 ''Chemical Name'' = row_get row ''Chemical Name''"
      using clean_entry_other[OF False, of h v row l] c by blast
    then have l1: "l1 = l" and n: "row_get row1 ''Chemical Name'' = row_get row ''Chemical Name''"
      using s by simp_all
    have lv: "log_values h (e # es) = log_values h es"
      using False e by (simp add: log_values_def)
    show ?thesis using ih n unfolding lv l1 chem_key_def by simp
  qed
qed

lemma clean_entries_logs:
  assumes "names_first es" and "clean_entries h es (row, l) = Inr (row', l')"
  shows "l' = add_logs l (chem_key h row') (log_values h es)"
  using assms
proof (induction es arbitrary: row l)
  case Nil
  then show ?case by (simp add: log_values_def add_logs_Nil)
next
  case (Cons e es)
  obtain c v where e: "e = (c, v)" by (cases e)
  show ?case
  proof (cases "startsWith c ''RF ''")
    case True
    then have "''Chemical Name'' \<notin> fst ` set (e # es)"
      using Cons.prems(1) rf_not_name[OF True] e by simp
    from clean_entries_name_stable[OF this Cons.prems(2)]
    show ?thesis by (simp add: chem_key_def)
  next
    case False
    obtain r1 where s: "clean_entry h (c, v) (row, l) = Inr (r1, l)"
      using clean_entry_other[OF False, of h v row l] by blast
    then have r: "clean_entries h es (r1, l) = Inr (row', l')"
      using Cons.prems(2) unfolding e by simp
    have nf: "names_first es" using Cons.prems(1) False e by simp
    have lv: "log_values h (e # es) = log_values h es"
      using False e by (simp add: log_values_def)
    show ?thesis using Cons.IH[OF nf r] unfolding lv .
  qed
qed

lemma values_for_Cons:
  "values_for h (r # rs) (r' # rs') k =
     (if chem_key h r' = k then log_values h r else []) @ values_for h rs rs' k"
  by (simp add: values_for_def)

lemma clean_rows_logs:
  assumes "clean_rows h rows l = Inr (rows', l')" and "\<And>r. r \<in> set rows \<Longrightarrow> names_first r"
  shows "l' k = (if values_for h rows rows' k = [] then l k
                 else Some ((case l k of None \<Rightarrow> [] | Some ws \<Rightarrow> ws) @ values_for h rows rows' k))"
  using assms
proof (induction rows arbitrary: l rows')
  case Nil
  then show ?case by (simp add: values_for_def)
next
  case (Cons row rows)
  obtain row1 l1 where s: "clean_entries h row (row, l) = Inr (row1, l1)"
    using Cons.prems(1) by (auto split: sum.splits)
  obtain rest where r: "clean_rows h rows l1 = Inr (rest, l')" and rows': "rows' = row1 # rest"
    using Cons.prems(1) s by (auto split: sum.splits)
  have l1: "l1 = add_logs l (chem_key h row1) (log_values h row)"
    using clean_entries_logs[OF _ s] Cons.prems(2) by simp
  have ih: "l' k = (if values_for h rows rest k = [] then l1 k
                 else Some ((case l1 k of None \<Rightarrow> [] | Some ws \<Rightarrow> ws) @ values_for h rows rest k))"
    using Cons.IH[OF r] Cons.prems(2) by simp
  show ?case
    unfolding rows' values_for_Cons ih l1
    by (auto simp: add_logs_def split: option.splits)
qed

lemma chem_key_put_median: "chem_key h (row_put ''Median Log RF'' v r) = chem_key h r"
  by (simp add: chem_key_def row_get_put)

lemma values_for_keys:
  assumes "map (chem_key h) out = map (chem_key h) rows"
  shows "values_for h data out k = values_for h data rows k"
  using assms
proof (induction data arbitrary: out rows)
  case Nil
  then show ?case by (simp add: values_for_def)
next
  case (Cons d data)
  show ?case
  proof (cases out)
    case Nil
    then show ?thesis using Cons.prems by (simp add: values_for_def)
  next
    case (Cons o1 os)
    then obtain r1 rs where rows: "rows = r1 # rs" using Cons.prems by (cases rows) auto
    show ?thesis
      using Cons.IH[of os rs] Cons.prems unfolding Cons rows values_for_Cons by simp
  qed
qed

text \<open>
  Rows of the output with the same name carry the same median. When every input row
  lists \<^verbatim>\<open>Chemical Name\<close> before its RF columns, that median is \<^verbatim>\<open>d3.median\<close> of the logs of
  all RF cells of the rows with this name, in row order.
\<close>

lemma median_per_key:
  assumes "cleanData h data = Inr out"
  shows "(\<forall>i j. i < length out \<and> j < length out \<and> chem_key h (out ! i) = chem_key h (out ! j) \<longrightarrow>
            row_get (out ! i) ''Median Log RF'' = row_get (out ! j) ''Median Log RF'')
         \<and> ((\<forall>r \<in> set data. names_first r) \<longrightarrow>
              (\<forall>i < length out. row_get (out ! i) ''Median Log RF''
                 = d3_median h (values_for h data out (chem_key h (out ! i)))))"
proof -
  obtain rows l where f: "clean_rows h data Map.empty = Inr (rows, l)"
    and m: "add_medians h l rows = Inr out"
    using assms by (auto simp: cleanData_def split: sum.splits)
  have out: "out = map (\<lambda>r. row_put ''Median Log RF'' (d3_median h (the (l (chem_key h r)))) r) rows"
    and dom: "\<forall>r \<in> set rows. l (chem_key h r) \<noteq> None"
    using add_medians_map[OF m] by simp_all
  have len: "length out = length rows" using out by simp
  have med: "row_get (out ! i) ''Median Log RF'' = d3_median h (the (l (chem_key h (out ! i))))"
    if "i < length out" for i
    using that len by (simp add: out row_get_put chem_key_put_median)
  have same: "row_get (out ! i) ''Median Log RF'' = row_get (out ! j) ''Median Log RF''"
    if "i < length out" "j < length out" "chem_key h (out ! i) = chem_key h (out ! j)" for i j
    using med[OF that(1)] med[OF that(2)] that(3) by simp
  have ks: "map (chem_key h) out = map (chem_key h) rows"
    by (simp add: out chem_key_put_median comp_def)
  have full: "row_get (out ! i) ''Median Log RF''
                 = d3_median h (values_for h data out (chem_key h (out ! i)))"
    if nf: "\<forall>r \<in> set data. names_first r" and i: "i < length out" for i
  proof -
    let ?k = "chem_key h (out ! i)"
    have "?k = chem_key h (rows ! i)" using i len by (simp add: out chem_key_put_median)
    then have "l ?k \<noteq> None" using dom i len by simp
    moreover have "l ?k = (if values_for h data rows ?k = [] then None
           else Some (values_for h data rows ?k))"
      using clean_rows_logs[OF f, of ?k] nf by simp
    ultimately have "the (l ?k) = values_for h data rows ?k" by (auto split: if_splits)
    then show ?thesis using med[OF i] values_for_keys[OF ks] by simp
  qed
  show ?thesis using same full by blast
qed

text \<open>
  C1. The cleaner files the log of an RF cell under the name the row has when the cell
  is visited, and reads the median under the name the row has at the end. For a row
  with an RF column before \<^verbatim>\<open>Chemical Name\<close> the first is the name of the sheet and the
  second the rewritten one, so the median is not the one of the chemical. Both rows
  below end with the name \<^verbatim>\<open>A (ESI+)\<close>; their log values are \<open>0\<close> and \<open>ln 2\<close>, whose
  median is \<open>ln 2 / 2\<close>, but both carry the median \<open>ln 2\<close> of the second row alone. The
  first row alone makes the cleaner raise a \<^verbatim>\<open>TypeError\<close>: no list is filed under its
  rewritten name.
\<close>

theorem median_misfiled:
  "cleanData example_host [rf_first_row, name_first_row] =
     Inr [[(''Chemical Name'', Str ''A (ESI+)''), (''Ionization Mode'', Str ''ESI+''),
           (''log RF s1'', Num (Fin 0)), (''Median Log RF'', Num (Fin (ln 2)))],
          [(''Chemical Name'', Str ''A (ESI+)''), (''Ionization Mode'', Str ''ESI+''),
           (''log RF s1'', Num (Fin (ln 2))), (''Median Log RF'', Num (Fin (ln 2)))]]
   \<and> d3_median example_host [Num (Fin 0), Num (Fin (ln 2))] = Num (Fin (ln 2 / 2))
   \<and> Num (Fin (ln 2 / 2)) \<noteq> Num (Fin (ln 2))
   \<and> d3_median example_host [Num (Fin (ln 2))] = Num (Fin (ln 2))
   \<and> cleanData example_host [rf_first_row] =
       Inl (TypeError, [[(''Chemical Name'', Str ''A (ESI+)''), (''Ionization Mode'', Str ''ESI+''),
                         (''log RF s1'', Num (Fin 0))]])"
  by (simp add: eval_clean rf_first_row_def name_first_row_def)

text \<open>
  Three rows that list the name first: the first and the third share the
  name \<^verbatim>\<open>A (ESI+)\<close> and the median of their three log values.
\<close>

lemma median_per_key_example:
  "cleanData example_host [raw_A_pos, raw_A_neg, raw_A_pos_again]
     = Inr [clean_A_pos3, clean_A_neg, clean_A_pos_again]
   \<and> names_first raw_A_pos \<and> names_first raw_A_neg \<and> names_first raw_A_pos_again
   \<and> chem_key example_host clean_A_pos3 = chem_key example_host clean_A_pos_again
   \<and> row_get clean_A_pos3 ''Median Log RF'' = row_get clean_A_pos_again ''Median Log RF''
   \<and> row_get clean_A_pos3 ''Median Log RF''
       = d3_median example_host [Num (Fin (ln 10)), Num (Fin (ln 20)), Num (Fin (ln 40))]
   \<and> row_get clean_A_neg ''Median Log RF'' = d3_median example_host [Num (Fin (ln 5))]"
proof -
  have nf: "\<forall>r \<in> set [raw_A_pos, raw_A_neg, raw_A_pos_again]. names_first r"
    by (simp add: raw_A_pos_def raw_A_neg_def raw_A_pos_again_def startsWith_def)
  have k: "chem_key example_host clean_A_pos3 = ''A (ESI+)''"
    "chem_key example_host clean_A_neg = ''A (ESI-)''"
    "chem_key example_host clean_A_pos_again = ''A (ESI+)''"
    by (simp_all add: chem_key_def clean_A_pos3_def clean_A_neg_def clean_A_pos_again_def)
  have v: "values_for example_host [raw_A_pos, raw_A_neg, raw_A_pos_again]
             [clean_A_pos3, clean_A_neg, clean_A_pos_again] ''A (ESI+)''
           = [Num (Fin (ln 10)), Num (Fin (ln 20)), Num (Fin (ln 40))]"
    "values_for example_host [raw_A_pos, raw_A_neg, raw_A_pos_again]
             [clean_A_pos3, clean_A_neg, clean_A_pos_again] ''A (ESI-)''
           = [Num (Fin (ln 5))]"
    by (simp_all add: values_for_def k log_values_def startsWith_def
        raw_A_pos_def raw_A_neg_def raw_A_pos_again_def)
  from median_per_key[OF cleanData_three]
  have a: "\<forall>i j. i < 3 \<and> j < 3 \<and>
         chem_key example_host ([clean_A_pos3, clean_A_neg, clean_A_pos_again] ! i)
           = chem_key example_host ([clean_A_pos3, clean_A_neg, clean_A_pos_again] ! j) \<longrightarrow>
         row_get ([clean_A_pos3, clean_A_neg, clean_A_pos_again] ! i) ''Median Log RF''
           = row_get ([clean_A_pos3, clean_A_neg, clean_A_pos_again] ! j) ''Median Log RF''"
    and b: "\<forall>i < 3. row_get ([clean_A_pos3, clean_A_neg, clean_A_pos_again] ! i) ''Median Log RF''
         = d3_median example_host
             (values_for example_host [raw_A_pos, raw_A_neg, raw_A_pos_again]
               [clean_A_pos3, clean_A_neg, clean_A_pos_again]
               (chem_key example_host ([clean_A_pos3, clean_A_neg, clean_A_pos_again] ! i)))"
    using nf by simp_all
  have "row_get clean_A_pos3 ''Median Log RF'' = row_get clean_A_pos_again ''Median Log RF''"
    using a[rule_format, of 0 2] k by simp
  moreover have "row_get clean_A_pos3 ''Median Log RF''
       = d3_median example_host [Num (Fin (ln 10)), Num (Fin (ln 20)), Num (Fin (ln 40))]"
    using b[rule_format, of 0] k v by simp
  moreover have "row_get clean_A_neg ''Median Log RF'' = d3_median example_host [Num (Fin (ln 5))]"
    using b[rule_format, of 1] k v by simp
  ultimately show ?thesis using cleanData_three nf k by simp
qed

section \<open>The rows after an error\<close>

lemma clean_rows_length:
  "clean_rows h rows l = Inr (rows', l') \<Longrightarrow> length rows' = length rows"
  using clean_rows_keys by blast

lemma clean_rows_failure:
  assumes "clean_rows h rows l0 = Inl (e, rows')"
  shows "\<exists>n < length rows. \<exists>pre l r' l'.
           clean_rows h (take n rows) l0 = Inr (pre, l)
           \<and> clean_entries h (rows ! n) (rows ! n, l) = Inl (e, r', l')
           \<and> rows' = pre @ r' # drop (Suc n) rows"
  using assms
proof (induction rows arbitrary: l0 rows')
  case Nil
  then show ?case by simp
next
  case (Cons row rows)
  show ?case
  proof (cases "clean_entries h row (row, l0)")
    case (Inl err)
    obtain r' l' where err: "err = (e, r', l')" and rows': "rows' = r' # rows"
      using Cons.prems Inl by (cases err) auto
    have "clean_rows h (take 0 (row # rows)) l0 = Inr ([], l0)
          \<and> clean_entries h ((row # rows) ! 0) ((row # rows) ! 0, l0) = Inl (e, r', l')
          \<and> rows' = [] @ r' # drop (Suc 0) (row # rows)"
      using Inl err rows' by simp
    moreover have "0 < length (row # rows)" by simp
    ultimately show ?thesis by blast
  next
    case (Inr st)
    obtain row1 l1 where st: "st = (row1, l1)" by (cases st)
    obtain rest where r: "clean_rows h rows l1 = Inl (e, rest)" and rows': "rows' = row1 # rest"
      using Cons.prems Inr st by (auto split: sum.splits)
    obtain n pre l r' l' where n: "n < length rows"
      and a: "clean_rows h (take n rows) l1 = Inr (pre, l)"
      and b: "clean_entries h (rows ! n) (rows ! n, l) = Inl (e, r', l')"
      and c: "rest = pre @ r' # drop (Suc n) rows"
      using Cons.IH[OF r] by blast
    have "clean_rows h (take (Suc n) (row # rows)) l0 = Inr (row1 # pre, l)
          \<and> clean_entries h ((row # rows) ! Suc n) ((row # rows) ! Suc n, l) = Inl (e, r', l')
          \<and> rows' = (row1 # pre) @ r' # drop (Suc (Suc n)) (row # rows)"
      using Inr st a b c rows' by simp
    moreover have "Suc n < length (row # rows)" using n by simp
    ultimately show ?thesis by blast
  qed
qed

lemma add_medians_failure:
  assumes "add_medians h l rows = Inl (e, rows')"
  shows "\<exists>n < length rows. l (chem_key h (rows ! n)) = None
           \<and> rows' = map (\<lambda>r. row_put ''Median Log RF'' (d3_median h (the (l (chem_key h r)))) r)
                        (take n rows) @ drop n rows"
  using assms
proof (induction rows arbitrary: rows')
  case Nil
  then show ?case by simp
next
  case (Cons row rows)
  show ?case
  proof (cases "l (chem_key h row)")
    case None
    then have "rows' = row # rows" using Cons.prems by (simp add: chem_key_def)
    then have "l (chem_key h ((row # rows) ! 0)) = None
        \<and> rows' = map (\<lambda>r. row_put ''Median Log RF'' (d3_median h (the (l (chem_key h r)))) r)
                        (take 0 (row # rows)) @ drop 0 (row # rows)"
      using None by simp
    moreover have "0 < length (row # rows)" by simp
    ultimately show ?thesis by blast
  next
    case (Some vs)
    obtain rest where r: "add_medians h l rows = Inl (e, rest)"
      and rows': "rows' = row_put ''Median Log RF'' (d3_median h vs) row # rest"
      using Cons.prems Some by (auto simp: chem_key_def split: sum.splits)
    obtain n where n: "n < length rows" and a: "l (chem_key h (rows ! n)) = None"
      and b: "rest = map (\<lambda>r. row_put ''Median Log RF'' (d3_median h (the (l (chem_key h r)))) r)
                        (take n rows) @ drop n rows"
      using Cons.IH[OF r] by blast
    have "l (chem_key h ((row # rows) ! Suc n)) = None
        \<and> rows' = map (\<lambda>r. row_put ''Median Log RF'' (d3_median h (the (l (chem_key h r)))) r)
                        (take (Suc n) (row # rows)) @ drop (Suc n) (row # rows)"
      using a b rows' Some by simp
    moreover have "Suc n < length (row # rows)" using n by simp
    ultimately show ?thesis by blast
  qed
qed

text \<open>
  C9, amended. The cleaner rewrites the caller's rows in place and does not restore them
  when it raises. The array keeps its length. If the first pass fails at row \<open>n\<close>, the
  rows before it are rewritten, row \<open>n\<close> is left as it was when the error was raised,
  and the rows after it are untouched. If the second pass fails at row \<open>n\<close> (no list of
  log values under its name), every row is as the first pass left it, and the rows
  before \<open>n\<close> carry their median as well.
\<close>

theorem rows_after_failure:
  assumes "cleanData h data = Inl (e, rows')"
  shows "e = TypeError \<and> length rows' = length data
    \<and> ((\<exists>n < length data. \<exists>pre l r' l'.
            clean_rows h (take n data) Map.empty = Inr (pre, l)
            \<and> clean_entries h (data ! n) (data ! n, l) = Inl (e, r', l')
            \<and> rows' = pre @ r' # drop (Suc n) data)
        \<or> (\<exists>rows l. clean_rows h data Map.empty = Inr (rows, l)
            \<and> (\<exists>n < length data. l (chem_key h (rows ! n)) = None
                 \<and> rows' = map (\<lambda>r. row_put ''Median Log RF''
                                         (d3_median h (the (l (chem_key h r)))) r) (take n rows)
                            @ drop n rows)))"
proof (cases "clean_rows h data Map.empty")
  case (Inl err)
  then have f: "clean_rows h data Map.empty = Inl (e, rows')"
    using assms by (simp add: cleanData_def)
  obtain n pre l r' l' where n: "n < length data"
    and a: "clean_rows h (take n data) Map.empty = Inr (pre, l)"
    and b: "clean_entries h (data ! n) (data ! n, l) = Inl (e, r', l')"
    and c: "rows' = pre @ r' # drop (Suc n) data"
    using clean_rows_failure[OF f] by blast
  have "length pre = n"
    using clean_rows_length[OF a] n by simp
  then have len: "length rows' = length data" using n unfolding c by simp
  have e: "e = TypeError" by (cases e) simp
  have "\<exists>n < length data. \<exists>pre l r' l'.
            clean_rows h (take n data) Map.empty = Inr (pre, l)
            \<and> clean_entries h (data ! n) (data ! n, l) = Inl (e, r', l')
            \<and> rows' = pre @ r' # drop (Suc n) data"
    using n a b c by blast
  then show ?thesis using len e by (intro conjI disjI1)
next
  case (Inr st)
  obtain rows l where st: "st = (rows, l)" by (cases st)
  have m: "add_medians h l rows = Inl (e, rows')"
    using assms Inr st by (simp add: cleanData_def)
  have len: "length rows = length data" using clean_rows_length Inr st by blast
  obtain n where n: "n < length rows" and a: "l (chem_key h (rows ! n)) = None"
    and b: "rows' = map (\<lambda>r. row_put ''Median Log RF'' (d3_median h (the (l (chem_key h r)))) r)
                        (take n rows) @ drop n rows"
    using add_medians_failure[OF m] by blast
  have len': "length rows' = length data" using n len unfolding b by simp
  have e: "e = TypeError" by (cases e) simp
  have n': "n < length data" using n len by simp
  have "\<exists>n < length data. l (chem_key h (rows ! n)) = None
                 \<and> rows' = map (\<lambda>r. row_put ''Median Log RF''
                                         (d3_median h (the (l (chem_key h r)))) r) (take n rows)
                            @ drop n rows"
    using n' a b by blast
  moreover have "clean_rows h data Map.empty = Inr (rows, l)" using Inr st by simp
  ultimately have "\<exists>rows l. clean_rows h data Map.empty = Inr (rows, l)
            \<and> (\<exists>n < length data. l (chem_key h (rows ! n)) = None
                 \<and> rows' = map (\<lambda>r. row_put ''Median Log RF''
                                         (d3_median h (the (l (chem_key h r)))) r) (take n rows)
                            @ drop n rows)"
    by blast
  then show ?thesis using len' e by (intro conjI disjI2)
qed

lemma cleanData_fails:
  "cleanData example_host [raw_A_neg, raw_no_samples]
     = Inl (TypeError, [clean_A_neg, touched_no_samples])"
  by (simp add: eval_clean raw_A_neg_def raw_no_samples_def clean_A_neg_def touched_no_samples_def)

text \<open>
  C9 as stated fails: the second row has no RF column, so the second pass raises at it;
  by then the first row has lost its RF column and gained two columns, and the second
  row has been renamed and has lost its comment.
\<close>

theorem rows_after_failure_counterexample:
  "cleanData example_host [raw_A_neg, raw_no_samples]
     = Inl (TypeError, [clean_A_neg, touched_no_samples])
   \<and> clean_A_neg \<noteq> raw_A_neg \<and> touched_no_samples \<noteq> raw_no_samples"
  by (simp add: cleanData_fails)
    (simp add: raw_A_neg_def raw_no_samples_def clean_A_neg_def touched_no_samples_def)

lemma cleanData_fails_first_pass:
  "cleanData example_host [raw_constructor, raw_A_neg]
     = Inl (TypeError, [touched_constructor, raw_A_neg])"
  by (simp add: eval_clean raw_constructor_def touched_constructor_def raw_A_neg_def)

text \<open>
  The theorem on two datasets: one fails in the second pass at its second row, the other
  in the first pass at its first row, whose second row is then left as it was.
\<close>

theorem rows_after_failure_witness:
  "cleanData example_host [raw_A_neg, raw_no_samples]
     = Inl (TypeError, [clean_A_neg, touched_no_samples])
   \<and> length [clean_A_neg, touched_no_samples] = length [raw_A_neg, raw_no_samples]
   \<and> cleanData example_host [raw_constructor, raw_A_neg]
     = Inl (TypeError, [touched_constructor, raw_A_neg])
   \<and> length [touched_constructor, raw_A_neg] = length [raw_constructor, raw_A_neg]
   \<and> drop 1 [touched_constructor, raw_A_neg] = drop 1 [raw_constructor, raw_A_neg]"
  using rows_after_failure[OF cleanData_fails] rows_after_failure[OF cleanData_fails_first_pass]
    cleanData_fails cleanData_fails_first_pass
  by simp

section \<open>RF cells of any value\<close>

lemma is_log_fn: "is_log = (\<lambda>e. startsWith (fst e) ''log RF '')"
  by (rule ext) (simp add: is_log_def)

lemma filter_log_put:
  "\<not> startsWith k ''log RF '' \<Longrightarrow> filter is_log (row_put k v r) = filter is_log r"
  unfolding is_log_fn by (rule filter_put)

lemma filter_log_delete:
  "\<not> startsWith k ''log RF '' \<Longrightarrow> filter is_log (row_delete k r) = filter is_log r"
  unfolding is_log_fn by (rule filter_delete)

lemma name_not_log: "\<not> startsWith ''Chemical Name'' ''log RF ''"
  by (simp add: startsWith_def)

lemma median_not_log: "\<not> startsWith ''Median Log RF'' ''log RF ''"
  by (simp add: startsWith_def)

lemma clean_entry_other_row:
  assumes "\<not> startsWith c ''RF ''" and "clean_entry h (c, v) (row, l) = Inr (row1, l1)"
  shows "row1 = row_delete c row \<or> (\<exists>x. row1 = row_put ''Chemical Name'' x row) \<or> row1 = row"
proof (cases c rule: clean_entry_cases)
  case drop
  then show ?thesis using assms(2) by simp
next
  case name
  then show ?thesis using assms(2) unfolding name clean_entry_name by blast
next
  case keep
  then show ?thesis using assms(2) clean_entry_keep[OF keep, of h v row l] by simp
next
  case rf
  then show ?thesis using assms(1) by simp
qed

lemma clean_entries_log_columns:
  assumes "clean_entries h es (row, l) = Inr (row', l')"
    and "\<And>k. k \<in> fst ` set es \<Longrightarrow> \<not> startsWith k ''log RF ''"
    and "distinct (map fst (rf_cells es))"
    and "\<And>e. e \<in> set (rf_cells es) \<Longrightarrow> ''log '' @ fst e \<notin> keys row"
  shows "filter is_log row' = filter is_log row @ map (log_cell h) (rf_cells es)"
  using assms
proof (induction es arbitrary: row l)
  case Nil
  then show ?case by (simp add: rf_cells_def)
next
  case (Cons e es)
  obtain c v where e: "e = (c, v)" by (cases e)
  obtain row1 l1 where s: "clean_entry h (c, v) (row, l) = Inr (row1, l1)"
    and r: "clean_entries h es (row1, l1) = Inr (row', l')"
    using Cons.prems(1) unfolding e by (auto split: sum.splits)
  have nolog: "\<not> startsWith c ''log RF ''" using Cons.prems(2)[of c] e by simp
  have p2: "\<And>k. k \<in> fst ` set es \<Longrightarrow> \<not> startsWith k ''log RF ''"
    using Cons.prems(2) by simp
  show ?case
  proof (cases "startsWith c ''RF ''")
    case True
    have row1: "row1 = rf_row h c v row" using clean_entry_rf_ok[OF True s] by simp
    have cells: "rf_cells (e # es) = (c, v) # rf_cells es"
      using True e by (simp add: rf_cells_def)
    have fresh: "''log '' @ c \<notin> keys row" using Cons.prems(4)[of "(c, v)"] cells by simp
    have "filter is_log row1
          = filter is_log (row_put (''log '' @ c) (Num (math_log (to_number h v))) row)"
      unfolding row1 rf_row_def by (rule filter_log_delete[OF rf_not_log[OF True]])
    also have "\<dots> = filter is_log (row @ [log_cell h (c, v)])"
      by (simp only: row_put_absent[OF fresh] log_cell_def fst_conv snd_conv)
    also have "\<dots> = filter is_log row @ [log_cell h (c, v)]"
      using log_of_rf[OF True] by (simp add: is_log_def log_cell_def)
    finally have f1: "filter is_log row1 = filter is_log row @ [log_cell h (c, v)]" .
    have d: "distinct (map fst (rf_cells es))" and cnot: "c \<notin> fst ` set (rf_cells es)"
      using Cons.prems(3) unfolding cells by simp_all
    have p4: "''log '' @ fst e' \<notin> keys row1" if e': "e' \<in> set (rf_cells es)" for e'
    proof -
      have "fst e' \<noteq> c" using cnot e' by auto
      moreover have "''log '' @ fst e' \<notin> keys row"
        using Cons.prems(4)[of e'] e' cells by simp
      ultimately show ?thesis
        unfolding row1 rf_row_def by (simp add: keys_delete keys_put)
    qed
    show ?thesis
      using Cons.IH[OF r p2 d p4] f1 unfolding cells by simp
  next
    case False
    have cells: "rf_cells (e # es) = rf_cells es"
      using False e by (simp add: rf_cells_def)
    have shape: "row1 = row_delete c row \<or> (\<exists>x. row1 = row_put ''Chemical Name'' x row) \<or> row1 = row"
      using clean_entry_other_row[OF False s] .
    have sub: "keys row1 \<subseteq> insert ''Chemical Name'' (keys row)"
      using shape by (auto simp: keys_delete keys_put)
    have f1: "filter is_log row1 = filter is_log row"
      using shape nolog by (auto simp: filter_log_delete filter_log_put name_not_log)
    have d: "distinct (map fst (rf_cells es))" using Cons.prems(3) unfolding cells .
    have p4: "''log '' @ fst e' \<notin> keys row1" if e': "e' \<in> set (rf_cells es)" for e'
      using Cons.prems(4)[of e'] e' sub unfolding cells by auto
    show ?thesis
      using Cons.IH[OF r p2 d p4] f1 unfolding cells by simp
  qed
qed

lemma clean_rows_nth:
  assumes "clean_rows h rows l = Inr (rows', l')" and "i < length rows"
  shows "\<exists>l0 l1. clean_entries h (rows ! i) (rows ! i, l0) = Inr (rows' ! i, l1)"
  using assms
proof (induction rows arbitrary: l rows' i)
  case Nil
  then show ?case by simp
next
  case (Cons row rows)
  obtain row1 l1 where s: "clean_entries h row (row, l) = Inr (row1, l1)"
    using Cons.prems(1) by (auto split: sum.splits)
  obtain rest where r: "clean_rows h rows l1 = Inr (rest, l')" and rows': "rows' = row1 # rest"
    using Cons.prems(1) s by (auto split: sum.splits)
  show ?case
  proof (cases i)
    case 0
    then show ?thesis using s rows' by auto
  next
    case (Suc j)
    then have "j < length rows" using Cons.prems(2) by simp
    from Cons.IH[OF r this] show ?thesis using Suc rows' by simp
  qed
qed

lemma cleaned_log_columns:
  assumes "cleanData h data = Inr out" and "i < length data"
    and "distinct (map fst (data ! i))"
    and "\<And>k. k \<in> fst ` set (data ! i) \<Longrightarrow> \<not> startsWith k ''log RF ''"
  shows "filter is_log (out ! i) = map (log_cell h) (rf_cells (data ! i))"
proof -
  obtain rows l where f: "clean_rows h data Map.empty = Inr (rows, l)"
    and m: "add_medians h l rows = Inr out"
    using assms(1) by (auto simp: cleanData_def split: sum.splits)
  have out: "out = map (\<lambda>r. row_put ''Median Log RF'' (d3_median h (the (l (chem_key h r)))) r) rows"
    using add_medians_map[OF m] by simp
  have len: "length rows = length data" using clean_rows_length[OF f] .
  obtain l0 l1 where s: "clean_entries h (data ! i) (data ! i, l0) = Inr (rows ! i, l1)"
    using clean_rows_nth[OF f assms(2)] by blast
  have d: "distinct (map fst (rf_cells (data ! i)))"
    using assms(3) unfolding rf_cells_def by (rule distinct_map_filter)
  have fresh: "''log '' @ fst e \<notin> keys (data ! i)" if "e \<in> set (rf_cells (data ! i))" for e
  proof -
    have "startsWith (fst e) ''RF ''" using that by (simp add: rf_cells_def)
    then have "startsWith (''log '' @ fst e) ''log RF ''" by (rule log_of_rf)
    then show ?thesis using assms(4) unfolding keys_def by blast
  qed
  have none: "filter is_log (data ! i) = []"
    using assms(4) by (auto simp: filter_empty_conv is_log_def)
  have "filter is_log (rows ! i) = map (log_cell h) (rf_cells (data ! i))"
    using clean_entries_log_columns[OF s assms(4) d fresh] none by simp
  then show ?thesis
    using assms(2) len by (simp add: out filter_log_put median_not_log)
qed

lemma names_first_no_name: "''Chemical Name'' \<notin> fst ` set es \<Longrightarrow> names_first es"
  by (induction es) auto

lemma prototype_last: "x \<in> set objectPrototype \<Longrightarrow> last x \<noteq> CHR '')''"
  by (auto simp: objectPrototype_def)

lemma rewritten_safe: "a @ '' ('' @ b @ '')'' \<notin> set objectPrototype"
  using prototype_last[of "a @ '' ('' @ b @ '')''"] by auto

lemma row_get_absent: "k \<notin> fst ` set r \<Longrightarrow> row_get r k = Undefined"
  by (induction r) auto

lemma undefined_safe: "to_string h Undefined \<notin> set objectPrototype"
  by (simp add: objectPrototype_def)

lemma clean_entries_total:
  assumes "names_first es"
    and "''Chemical Name'' \<in> fst ` set es \<or> chem_key h row \<notin> set objectPrototype"
  shows "\<exists>st. clean_entries h es (row, l) = Inr st"
  using assms
proof (induction es arbitrary: row l)
  case Nil
  then show ?case by simp
next
  case (Cons e es)
  obtain c v where e: "e = (c, v)" by (cases e)
  show ?case
  proof (cases "startsWith c ''RF ''")
    case True
    have es: "''Chemical Name'' \<notin> fst ` set es" using Cons.prems(1) True e by simp
    have c: "c \<noteq> ''Chemical Name''" using True by (rule rf_not_name)
    have safe: "chem_key h row \<notin> set objectPrototype" using Cons.prems(2) es c e by simp
    obtain l1 where s: "clean_entry h (c, v) (row, l) = Inr (rf_row h c v row, l1)"
      using safe unfolding clean_entry_rf[OF True] chem_key_def by (cases "l (to_string h (row_get row ''Chemical Name''))") auto
    have "chem_key h (rf_row h c v row) \<notin> set objectPrototype"
      using safe by (simp add: chem_key_def rf_row_name[OF True])
    then obtain st where "clean_entries h es (rf_row h c v row, l1) = Inr st"
      using Cons.IH[OF names_first_no_name[OF es]] by blast
    then show ?thesis using s e by simp
  next
    case False
    obtain row1 where s: "clean_entry h (c, v) (row, l) = Inr (row1, l)"
      and same: "c \<noteq> ''Chemical Name'' \<longrightarrow> row_get row1 ''Chemical Name'' = row_get row ''Chemical Name''"
      using clean_entry_other[OF False, of h v row l] by blast
    have nf: "names_first es" using Cons.prems(1) False e by simp
    have "''Chemical Name'' \<in> fst ` set es \<or> chem_key h row1 \<notin> set objectPrototype"
    proof (cases "c = ''Chemical Name''")
      case True
      have "row1 = row_put ''Chemical Name''
            (Str (to_string h (row_get row ''Chemical Name'') @ '' (''
                  @ to_string h (row_get row ''Ionization Mode'') @ '')'')) row"
        using s unfolding True clean_entry_name by simp
      then have "chem_key h row1 = to_string h (row_get row ''Chemical Name'') @ '' (''
                  @ to_string h (row_get row ''Ionization Mode'') @ '')''"
        by (simp add: chem_key_def row_get_put)
      then show ?thesis using rewritten_safe by simp
    next
      case False
      then show ?thesis using Cons.prems(2) same e by (auto simp: chem_key_def)
    qed
    then obtain st where "clean_entries h es (row1, l) = Inr st"
      using Cons.IH[OF nf] by blast
    then show ?thesis using s e by simp
  qed
qed

lemma clean_rows_total:
  assumes "\<And>r. r \<in> set rows \<Longrightarrow> names_first r"
  shows "\<exists>st. clean_rows h rows l = Inr st"
  using assms
proof (induction rows arbitrary: l)
  case Nil
  then show ?case by simp
next
  case (Cons row rows)
  have "''Chemical Name'' \<in> fst ` set row \<or> chem_key h row \<notin> set objectPrototype"
    using row_get_absent[of "''Chemical Name''" row] undefined_safe[of h]
    by (auto simp: chem_key_def)
  then obtain row1 l1 where s: "clean_entries h row (row, l) = Inr (row1, l1)"
    using clean_entries_total[of row h row l] Cons.prems by auto
  have "\<exists>st. clean_rows h rows l1 = Inr st"
    by (rule Cons.IH) (simp add: Cons.prems)
  then obtain rows1 l2 where "clean_rows h rows l1 = Inr (rows1, l2)" by auto
  then show ?case using s by simp
qed

lemma add_medians_total:
  assumes "\<And>r. r \<in> set rows \<Longrightarrow> l (chem_key h r) \<noteq> None"
  shows "\<exists>out. add_medians h l rows = Inr out"
  using assms
proof (induction rows)
  case Nil
  then show ?case by simp
next
  case (Cons row rows)
  obtain vs where "l (chem_key h row) = Some vs" using Cons.prems by auto
  moreover obtain rest where "add_medians h l rows = Inr rest"
    using Cons.IH Cons.prems by auto
  ultimately show ?case by (simp add: chem_key_def)
qed

lemma values_for_nonempty:
  assumes "length rows' = length data" and "i < length data" and "log_values h (data ! i) \<noteq> []"
  shows "values_for h data rows' (chem_key h (rows' ! i)) \<noteq> []"
  using assms
proof (induction data arbitrary: rows' i)
  case Nil
  then show ?case by simp
next
  case (Cons d data)
  obtain r rs where rows': "rows' = r # rs" using Cons.prems(1) by (cases rows') auto
  show ?case
  proof (cases i)
    case 0
    then show ?thesis using Cons.prems(3) unfolding rows' values_for_Cons by simp
  next
    case (Suc j)
    then have "values_for h data rs (chem_key h (rs ! j)) \<noteq> []"
      using Cons.IH[of rs j] Cons.prems rows' by simp
    then show ?thesis unfolding rows' values_for_Cons Suc by simp
  qed
qed

lemma cleanData_total:
  assumes "\<And>r. r \<in> set data \<Longrightarrow> names_first r \<and> rf_cells r \<noteq> []"
  shows "\<exists>out. cleanData h data = Inr out"
proof -
  obtain rows l where f: "clean_rows h data Map.empty = Inr (rows, l)"
    using clean_rows_total[of data h Map.empty] assms by auto
  have len: "length rows = length data" using clean_rows_length[OF f] .
  have "l (chem_key h r) \<noteq> None" if r: "r \<in> set rows" for r
  proof -
    obtain i where i: "i < length data" and ri: "r = rows ! i"
      using r len by (metis in_set_conv_nth)
    have "log_values h (data ! i) \<noteq> []"
      using assms[of "data ! i"] i by (simp add: log_values_def rf_cells_def)
    then have "values_for h data rows (chem_key h r) \<noteq> []"
      unfolding ri using values_for_nonempty[OF len i] by simp
    then show ?thesis using clean_rows_logs[OF f, of "chem_key h r"] assms by simp
  qed
  then obtain out where "add_medians h l rows = Inr out"
    using add_medians_total[of rows l h] by blast
  then show ?thesis using f by (simp add: cleanData_def)
qed

lemma rf_row_log: "row_get (rf_row h c v row) (''log '' @ c) = Num (math_log (to_number h v))"
proof -
  have "''log '' @ c \<noteq> c" by (metis append_self_conv2 list.distinct(1) append_Cons)
  then show ?thesis by (simp add: rf_row_def row_get_delete row_get_put)
qed

lemma clean_entry_rf_log:
  assumes "startsWith c ''RF ''"
  shows "\<exists>row' l'. (clean_entry h (c, v) (row, l) = Inr (row', l')
                     \<or> clean_entry h (c, v) (row, l) = Inl (TypeError, row', l')
                        \<and> chem_key h row \<in> set objectPrototype)
                   \<and> row_get row' (''log '' @ c) = Num (math_log (to_number h v))"
proof (cases "l (to_string h (row_get row ''Chemical Name''))")
  case None
  show ?thesis
  proof (cases "to_string h (row_get row ''Chemical Name'') \<in> set objectPrototype")
    case True
    then have "clean_entry h (c, v) (row, l) = Inl (TypeError, rf_row h c v row, l)"
      using None by (simp only: clean_entry_rf[OF assms] option.case if_True)
    then show ?thesis using True rf_row_log[of h c v row] by (simp only: chem_key_def) blast
  next
    case False
    then have "clean_entry h (c, v) (row, l) = Inr (rf_row h c v row,
             l(to_string h (row_get row ''Chemical Name'') \<mapsto> [Num (math_log (to_number h v))]))"
      using None by (simp only: clean_entry_rf[OF assms] option.case if_False)
    then show ?thesis using rf_row_log[of h c v row] by blast
  qed
next
  case (Some logs)
  then have "clean_entry h (c, v) (row, l) = Inr (rf_row h c v row,
           l(to_string h (row_get row ''Chemical Name'') \<mapsto> logs @ [Num (math_log (to_number h v))]))"
    by (simp only: clean_entry_rf[OF assms] option.case)
  then show ?thesis using rf_row_log[of h c v row] by blast
qed

text \<open>
  C4, amended. The cleaner has no check on the cells and raises nothing for them. When
  it visits an RF column it stores \<^verbatim>\<open>Math.log\<close> of the cell as a number in the log column,
  whatever the cell holds, and raises only when the name of the row is a name that
  \<^verbatim>\<open>Object.prototype\<close> has too. It returns for every dataset whose rows list
  \<^verbatim>\<open>Chemical Name\<close> before their RF columns and have an RF column. In a row with distinct
  columns and no column already named \<^verbatim>\<open>log RF ...\<close>, the log RF columns of the output
  are, in order, \<^verbatim>\<open>Math.log\<close> of the RF cells as numbers: \<^verbatim>\<open>-Infinity\<close> for a zero, \<^verbatim>\<open>NaN\<close>
  for a negative number and for a string that is not a number.
\<close>

theorem log_of_every_cell:
  "((\<forall>r \<in> set data. names_first r \<and> rf_cells r \<noteq> []) \<longrightarrow> (\<exists>out. cleanData h data = Inr out))
   \<and> (\<forall>out i. cleanData h data = Inr out \<and> i < length data \<and> distinct (map fst (data ! i))
          \<and> (\<forall>k \<in> fst ` set (data ! i). \<not> startsWith k ''log RF '') \<longrightarrow>
        filter is_log (out ! i) = map (log_cell h) (rf_cells (data ! i)))
   \<and> log_cell h (c, Num (Fin 0)) = (''log '' @ c, Num NegInf)
   \<and> (x < 0 \<longrightarrow> log_cell h (c, Num (Fin x)) = (''log '' @ c, Num NaN))
   \<and> (string_to_number h s = NaN \<longrightarrow> log_cell h (c, Str s) = (''log '' @ c, Num NaN))
   \<and> (startsWith c ''RF '' \<longrightarrow>
        (\<exists>row' l'. (clean_entry h (c, v) (row, l) = Inr (row', l')
                    \<or> clean_entry h (c, v) (row, l) = Inl (TypeError, row', l')
                       \<and> chem_key h row \<in> set objectPrototype)
                  \<and> row_get row' (''log '' @ c) = Num (math_log (to_number h v))))"
proof (intro conjI allI impI)
  assume "\<forall>r \<in> set data. names_first r \<and> rf_cells r \<noteq> []"
  then show "\<exists>out. cleanData h data = Inr out" using cleanData_total[of data h] by blast
next
  fix out i
  assume a: "cleanData h data = Inr out \<and> i < length data \<and> distinct (map fst (data ! i))
          \<and> (\<forall>k \<in> fst ` set (data ! i). \<not> startsWith k ''log RF '')"
  show "filter is_log (out ! i) = map (log_cell h) (rf_cells (data ! i))"
    using cleaned_log_columns[of h data out i] a by blast
next
  show "log_cell h (c, Num (Fin 0)) = (''log '' @ c, Num NegInf)" by (simp add: log_cell_def)
next
  assume "x < 0"
  then show "log_cell h (c, Num (Fin x)) = (''log '' @ c, Num NaN)" by (simp add: log_cell_def)
next
  assume "string_to_number h s = NaN"
  then show "log_cell h (c, Str s) = (''log '' @ c, Num NaN)" by (simp add: log_cell_def)
next
  assume "startsWith c ''RF ''"
  then show "\<exists>row' l'. (clean_entry h (c, v) (row, l) = Inr (row', l')
                    \<or> clean_entry h (c, v) (row, l) = Inl (TypeError, row', l')
                       \<and> chem_key h row \<in> set objectPrototype)
                  \<and> row_get row' (''log '' @ c) = Num (math_log (to_number h v))"
    by (rule clean_entry_rf_log)
qed

lemma cleanData_bad_cells: "cleanData example_host [raw_bad_cells] = Inr [clean_bad_cells]"
  by (simp add: eval_clean raw_bad_cells_def clean_bad_cells_def example_string_to_number_def)

text \<open>
  C4 as stated fails: a zero, a negative and a non-numeric RF cell raise no error; the
  cleaner returns the row with \<^verbatim>\<open>-Infinity\<close> and \<^verbatim>\<open>NaN\<close> in its log columns.
\<close>

theorem log_of_every_cell_counterexample:
  "cleanData example_host [raw_bad_cells] = Inr [clean_bad_cells]
   \<and> row_get raw_bad_cells ''RF s1'' = Num (Fin 0)
   \<and> row_get clean_bad_cells ''log RF s1'' = Num NegInf
   \<and> row_get raw_bad_cells ''RF s2'' = Num (Fin (- 1))
   \<and> row_get clean_bad_cells ''log RF s2'' = Num NaN
   \<and> row_get raw_bad_cells ''RF s3'' = Str ''n/a''
   \<and> row_get clean_bad_cells ''log RF s3'' = Num NaN"
  by (simp add: cleanData_bad_cells) (simp add: raw_bad_cells_def clean_bad_cells_def)

text \<open>The theorem on the row with a zero, a negative and a non-numeric cell.\<close>

theorem log_of_every_cell_witness:
  "names_first raw_bad_cells \<and> rf_cells raw_bad_cells \<noteq> []
   \<and> cleanData example_host [raw_bad_cells] = Inr [clean_bad_cells]
   \<and> distinct (map fst raw_bad_cells)
   \<and> filter is_log clean_bad_cells =
       [(''log RF s1'', Num NegInf), (''log RF s2'', Num NaN), (''log RF s3'', Num NaN)]
   \<and> map (log_cell example_host) (rf_cells raw_bad_cells) =
       [(''log RF s1'', Num NegInf), (''log RF s2'', Num NaN), (''log RF s3'', Num NaN)]
   \<and> (- 1 :: real) < 0 \<and> string_to_number example_host ''n/a'' = NaN
   \<and> startsWith ''RF s1'' ''RF ''
   \<and> chem_key example_host raw_bad_cells \<notin> set objectPrototype
   \<and> (\<exists>row' l'. clean_entry example_host (''RF s1'', Num (Fin 0)) (raw_bad_cells, Map.empty)
                   = Inr (row', l')
                 \<and> row_get row' ''log RF s1'' = Num NegInf)"
proof -
  have a: "names_first raw_bad_cells" "rf_cells raw_bad_cells \<noteq> []"
    "distinct (map fst raw_bad_cells)"
    "\<forall>k \<in> fst ` set raw_bad_cells. \<not> startsWith k ''log RF ''"
    by (simp_all add: raw_bad_cells_def rf_cells_def startsWith_def)
  have n: "string_to_number example_host ''n/a'' = NaN"
    by (simp add: example_host_def example_string_to_number_def)
  have f: "filter is_log clean_bad_cells =
       [(''log RF s1'', Num NegInf), (''log RF s2'', Num NaN), (''log RF s3'', Num NaN)]"
    by (simp add: clean_bad_cells_def is_log_def startsWith_def)
  have p: "startsWith ''RF s1'' ''RF ''" by (simp add: startsWith_def)
  have k: "chem_key example_host raw_bad_cells \<notin> set objectPrototype"
    by (simp add: chem_key_def raw_bad_cells_def objectPrototype_def)
  have z: "Num (math_log (to_number example_host (Num (Fin 0)))) = Num NegInf" by simp
  note t = log_of_every_cell[of "[raw_bad_cells]" example_host "''RF s1''" _ _ "Num (Fin 0)"
      raw_bad_cells Map.empty]
  have "\<forall>out i. cleanData example_host [raw_bad_cells] = Inr out \<and> i < length [raw_bad_cells]
          \<and> distinct (map fst ([raw_bad_cells] ! i))
          \<and> (\<forall>k \<in> fst ` set ([raw_bad_cells] ! i). \<not> startsWith k ''log RF '') \<longrightarrow>
        filter is_log (out ! i) = map (log_cell example_host) (rf_cells ([raw_bad_cells] ! i))"
    using t by (rule conjunct2[THEN conjunct1])
  then have "filter is_log ([clean_bad_cells] ! 0)
       = map (log_cell example_host) (rf_cells ([raw_bad_cells] ! 0))"
    using cleanData_bad_cells a by simp
  then have m: "map (log_cell example_host) (rf_cells raw_bad_cells) =
       [(''log RF s1'', Num NegInf), (''log RF s2'', Num NaN), (''log RF s3'', Num NaN)]"
    using f by simp
  have "\<exists>row' l'. (clean_entry example_host (''RF s1'', Num (Fin 0)) (raw_bad_cells, Map.empty)
                      = Inr (row', l')
                    \<or> clean_entry example_host (''RF s1'', Num (Fin 0)) (raw_bad_cells, Map.empty)
                      = Inl (TypeError, row', l')
                       \<and> chem_key example_host raw_bad_cells \<in> set objectPrototype)
                  \<and> row_get row' (''log '' @ ''RF s1'')
                    = Num (math_log (to_number example_host (Num (Fin 0))))"
    using t p by blast
  then have e: "\<exists>row' l'. clean_entry example_host (''RF s1'', Num (Fin 0)) (raw_bad_cells, Map.empty)
                   = Inr (row', l')
                 \<and> row_get row' ''log RF s1'' = Num NegInf"
    using k unfolding z by simp
  show ?thesis
    using a(1-3) cleanData_bad_cells f m n p k e by (intro conjI) simp_all
qed

section \<open>A sample name that contains the prefix\<close>

lemma cleanData_nested: "cleanData example_host [raw_nested] = Inr [clean_nested]"
  by (simp add: eval_clean raw_nested_def clean_nested_def)

text \<open>
  C8. The sample name is taken as \<^verbatim>\<open>key.split("log RF ")[1]\<close>, the part between the first
  and the second \<^verbatim>\<open>log RF \<close> of the column name, not the rest of the name after the
  prefix. For the sample \<^verbatim>\<open>alog RF b\<close> the cleaner turns the column \<^verbatim>\<open>RF alog RF b\<close> of
  the sheet into \<^verbatim>\<open>log RF alog RF b\<close>, and the point of that column gets the sample name
  \<^verbatim>\<open>a\<close>; the suffix does not end in an underscore, so the name should be \<^verbatim>\<open>alog RF b\<close>.
\<close>

theorem sample_name_truncated:
  "cleanData example_host [raw_nested] = Inr [clean_nested]
   \<and> row_get raw_nested ''RF alog RF b'' = Num (Fin 1)
   \<and> row_get clean_nested ''log RF alog RF b'' = Num (Fin 0)
   \<and> getPointsData example_host [clean_nested] ''both'' =
       Inr [\<lparr> chemical = Str ''C (ESI+)'', logRF = Num (Fin 0), featureId = Num (Fin 3),
              sampleName = ''a'', mode = Str ''ESI+'', retentionTime = Num (Fin 4),
              color = Str ''rgb(204, 0, 204)'' \<rparr>]
   \<and> sample_name ''log RF alog RF b'' = Inr ''a''
   \<and> \<not> endsWith ''alog RF b'' ''_''"
proof -
  have "getPointsData example_host [clean_nested] ''both'' =
       Inr [\<lparr> chemical = Str ''C (ESI+)'', logRF = Num (Fin 0), featureId = Num (Fin 3),
              sampleName = ''a'', mode = Str ''ESI+'', retentionTime = Num (Fin 4),
              color = Str ''rgb(204, 0, 204)'' \<rparr>]"
    by (simp add: eval_points clean_nested_def)
  moreover have "row_get raw_nested ''RF alog RF b'' = Num (Fin 1)"
    "row_get clean_nested ''log RF alog RF b'' = Num (Fin 0)"
    by (simp_all add: raw_nested_def clean_nested_def)
  moreover have "sample_name ''log RF alog RF b'' = Inr ''a''"
    by (simp add: eval_points)
  moreover have "\<not> endsWith ''alog RF b'' ''_''"
    by (simp add: eval_points)
  ultimately show ?thesis using cleanData_nested by simp
qed

end
